theory Spec2Isabelle
  imports Complex_Main "HOL-Library.Multiset" "HOL-Library.Log_Nat"
begin

section \<open>Data model (src/app/page.tsx, lines 6-20)\<close>

text \<open>
  The union types of the source are datatypes; the \<open>Todo\<close> interface is a record.
  Strings are lists of 8-bit characters: the model covers JavaScript strings whose code
  units lie in the range 0..255.  The fields \<open>id\<close>, \<open>text\<close> and \<open>notes\<close> are written
  \<open>id'\<close>, \<open>text'\<close> and \<open>notes'\<close>; the component's state variables \<open>priority\<close>,
  \<open>category\<close>, \<open>dueDate\<close>, \<open>notes\<close> and \<open>filter\<close> carry the suffix \<open>_st\<close>.
\<close>

datatype Priority = Low | Medium | High

datatype Category = Personal | Work | Shopping | Health | Other

datatype FilterType = FilterAll | FilterActive | FilterCompleted

datatype SortType = SortDate | SortPriority | SortAlphabetical | SortDueDate

text \<open>
  The interface declares \<open>createdAt: Date\<close>.  \<open>addTodo\<close> stores a \<open>Date\<close> object
  (its time value in milliseconds since the epoch); a task that came back from
  \<open>JSON.parse\<close> carries a string in that field.
\<close>

datatype CreatedAt = DateObject int | DateString string

record Todo =
  id' :: int
  text' :: string
  completed :: bool
  priority :: Priority
  category :: Category
  dueDate :: "string option"
  createdAt :: CreatedAt
  notes' :: string

text \<open>The state variables of the component \<open>TodoApp\<close> (lines 546-562).\<close>

record AppState =
  todos :: "Todo list"
  inputValue :: string
  priority_st :: Priority
  category_st :: Category
  dueDate_st :: string
  notes_st :: string
  filter_st :: FilterType
  categoryFilter :: "Category option"
  sortBy :: SortType
  searchQuery :: string
  darkMode :: bool
  showAddForm :: bool
  editingId :: "int option"
  editText :: string
  showStats :: bool
  deletingId :: "int option"
  addedId :: "int option"

section \<open>String.prototype.trim\<close>

text \<open>
  \<open>trim\<close> removes white space and line terminators from both ends.  Among the code
  units 0..255 these are TAB, LF, VT, FF, CR, SPACE and NBSP.
\<close>

definition isWhiteSpace :: "char \<Rightarrow> bool" where
  "isWhiteSpace c = (of_char c \<in> {9, 10, 11, 12, 13, 32, 160 :: nat})"

definition trim :: "string \<Rightarrow> string" where
  "trim s = rev (dropWhile isWhiteSpace (rev (dropWhile isWhiteSpace s)))"

section \<open>Task store operations (lines 585-655)\<close>

text \<open>
  \<open>addTodo\<close> reads the clock twice: \<open>Date.now()\<close> for the id and \<open>new Date()\<close> for
  \<open>createdAt\<close>.  Both readings are parameters.  \<open>dueDate || null\<close> turns the empty
  string into \<open>null\<close>.  The timer that resets \<open>addedId\<close> half a second later is a
  separate event and not part of this step.
\<close>

definition newTodo :: "int \<Rightarrow> int \<Rightarrow> AppState \<Rightarrow> Todo" where
  "newTodo newId now s =
     \<lparr> id' = newId,
       text' = inputValue s,
       completed = False,
       priority = priority_st s,
       category = category_st s,
       dueDate = (if dueDate_st s = [] then None else Some (dueDate_st s)),
       createdAt = DateObject now,
       notes' = notes_st s \<rparr>"

definition addTodo :: "int \<Rightarrow> int \<Rightarrow> AppState \<Rightarrow> AppState" where
  "addTodo newId now s =
     (if trim (inputValue s) = [] then s
      else s\<lparr> todos := newTodo newId now s # todos s,
              inputValue := [],
              dueDate_st := [],
              notes_st := [],
              priority_st := Medium,
              category_st := Personal,
              showAddForm := False,
              addedId := Some newId \<rparr>)"

definition toggleTodo :: "int \<Rightarrow> AppState \<Rightarrow> AppState" where
  "toggleTodo i s =
     s\<lparr> todos := map (\<lambda>todo. if id' todo = i then todo\<lparr> completed := \<not> completed todo \<rparr> else todo)
                    (todos s) \<rparr>"

text \<open>
  \<open>deleteTodo\<close> marks the task and removes it from a timer 300 ms later; the model is
  the state once the timer has run.
\<close>

definition deleteTodo :: "int \<Rightarrow> AppState \<Rightarrow> AppState" where
  "deleteTodo i s =
     s\<lparr> todos := filter (\<lambda>todo. id' todo \<noteq> i) (todos s), deletingId := None \<rparr>"

definition saveEdit :: "int \<Rightarrow> AppState \<Rightarrow> AppState" where
  "saveEdit i s =
     (if trim (editText s) = [] then s
      else s\<lparr> todos := map (\<lambda>todo. if id' todo = i then todo\<lparr> text' := editText s \<rparr> else todo)
                          (todos s),
              editingId := None,
              editText := [] \<rparr>)"

definition updatePriority :: "int \<Rightarrow> Priority \<Rightarrow> AppState \<Rightarrow> AppState" where
  "updatePriority i newPriority s =
     s\<lparr> todos := map (\<lambda>todo. if id' todo = i then todo\<lparr> priority := newPriority \<rparr> else todo)
                    (todos s) \<rparr>"

definition clearCompleted :: "AppState \<Rightarrow> AppState" where
  "clearCompleted s = s\<lparr> todos := filter (\<lambda>todo. \<not> completed todo) (todos s) \<rparr>"

section \<open>Aggregate statistics (lines 693-701)\<close>

record Stats =
  total :: nat
  active :: nat
  completed' :: nat
  highPriority :: nat

definition stats :: "AppState \<Rightarrow> Stats" where
  "stats s =
     \<lparr> total = length (todos s),
       active = length (filter (\<lambda>t. \<not> completed t) (todos s)),
       completed' = length (filter (\<lambda>t. completed t) (todos s)),
       highPriority = length (filter (\<lambda>t. priority t = High \<and> \<not> completed t) (todos s)) \<rparr>"

text \<open>
  JavaScript numbers are IEEE 754 double-precision values.  A finite one is modelled by
  the rational it denotes; \<open>NaN\<close> and the two infinities are values of their own, and
  the sign of a zero is not kept.  A division and a multiplication return the exact
  result rounded to the nearest double, a tie going to the neighbour whose significand
  is even (\<open>toDouble\<close>):

  \<^item> \<open>binade a\<close> is the exponent \<open>e\<close> with \<open>2 powi e \<le> a < 2 powi (e + 1)\<close>;
  \<^item> the doubles around \<open>a\<close> are the multiples of \<open>2 powi (e - 52)\<close> (a significand
    of 53 bits), and of \<open>2 powi (- 1074)\<close> below the smallest normal number
    \<open>2 powi (- 1022)\<close>;
  \<^item> a result that rounds to \<open>2 powi 1024\<close> or more is an infinity.

  \<open>0 / 0\<close> is \<open>NaN\<close> and a non-zero numerator over \<open>0\<close> is an infinity.
  \<open>Math.round\<close> rounds a double to the nearest integer, a tie towards \<open>+\<infinity>\<close>, and
  maps \<open>NaN\<close> and the infinities to themselves.
\<close>

datatype 'a number = Num 'a | NaN | PosInfinity | NegInfinity

definition binade :: "rat \<Rightarrow> int" where
  "binade a =
     (case quotient_of a of (p, q) \<Rightarrow>
        let d = bitlen p - bitlen q in if 2 powi d \<le> a then d else d - 1)"

definition roundHalfEven :: "rat \<Rightarrow> int" where
  "roundHalfEven m =
     (let f = \<lfloor>m\<rfloor>; d = m - of_int f
      in if d < 1 / 2 then f else if 1 / 2 < d then f + 1 else if even f then f else f + 1)"

definition toDouble :: "rat \<Rightarrow> rat number" where
  "toDouble x =
     (if x = 0 then Num 0
      else let a = \<bar>x\<bar>;
               e = max (binade a) (- 1022);
               ulp = 2 powi (e - 52);
               y = of_int (roundHalfEven (a / ulp)) * ulp
           in if 2 powi 1024 \<le> y then (if 0 < x then PosInfinity else NegInfinity)
              else Num (if 0 < x then y else - y))"

definition js_div :: "rat \<Rightarrow> rat \<Rightarrow> rat number" where
  "js_div a b =
     (if b = 0 then (if a = 0 then NaN else if 0 < a then PosInfinity else NegInfinity)
      else toDouble (a / b))"

fun js_times :: "rat number \<Rightarrow> rat \<Rightarrow> rat number" where
  "js_times (Num x) k = toDouble (x * k)"
| "js_times NaN k = NaN"
| "js_times PosInfinity k = (if k = 0 then NaN else if 0 < k then PosInfinity else NegInfinity)"
| "js_times NegInfinity k = (if k = 0 then NaN else if 0 < k then NegInfinity else PosInfinity)"

fun Math_round :: "rat number \<Rightarrow> rat number" where
  "Math_round (Num x) = Num (of_int \<lfloor>x + 1 / 2\<rfloor>)"
| "Math_round NaN = NaN"
| "Math_round PosInfinity = PosInfinity"
| "Math_round NegInfinity = NegInfinity"

text \<open>
  The counts are array lengths, integers below \<open>2 ^ 32\<close>, which are doubles exactly.
\<close>

definition percentOf :: "Stats \<Rightarrow> rat number" where
  "percentOf st = Math_round (js_times (js_div (of_nat (completed' st)) (of_nat (total st))) 100)"

definition progressPercent :: "AppState \<Rightarrow> rat number" where
  "progressPercent s = (if total (stats s) > 0 then percentOf (stats s) else Num 0)"
section \<open>Dates\<close>

text \<open>
  A time value is a number of milliseconds since 1970-01-01T00:00:00Z; the time value of
  an invalid date is \<open>NaN\<close>.  \<open>new Date(s).getTime()\<close> for a string \<open>s\<close> is a parameter
  \<open>getTime\<close> of the functions below, and the offset of local time from UTC at a time
  value is a parameter \<open>localTZA\<close> (ECMAScript's LocalTZA, in milliseconds).

  \<open>Date_parse\<close> is \<open>getTime\<close> on the date-only form \<open>YYYY-MM-DD\<close>, which the
  date input of the form produces: such a string denotes midnight UTC of that day.
  Every other string is given \<open>NaN\<close> here; the date-time forms and the legacy formats of
  the engines are not modelled.  The day number follows ECMAScript's \<open>DayFromYear\<close>.
\<close>

definition msPerDay :: int where
  "msPerDay = 86400000"

definition isDigit :: "char \<Rightarrow> bool" where
  "isDigit c = (48 \<le> (of_char c :: nat) \<and> (of_char c :: nat) \<le> 57)"

definition digitVal :: "char \<Rightarrow> int" where
  "digitVal c = int (of_char c) - 48"

definition digitsVal :: "string \<Rightarrow> int" where
  "digitsVal ds = foldl (\<lambda>a c. 10 * a + digitVal c) 0 ds"

definition InLeapYear :: "int \<Rightarrow> bool" where
  "InLeapYear y = (y mod 4 = 0 \<and> (y mod 100 \<noteq> 0 \<or> y mod 400 = 0))"

definition DaysInMonth :: "int \<Rightarrow> int \<Rightarrow> int" where
  "DaysInMonth y m =
     (if m = 2 then (if InLeapYear y then 29 else 28)
      else if m = 4 \<or> m = 6 \<or> m = 9 \<or> m = 11 then 30
      else 31)"

definition DayFromYear :: "int \<Rightarrow> int" where
  "DayFromYear y =
     365 * (y - 1970) + (y - 1969) div 4 - (y - 1901) div 100 + (y - 1601) div 400"

definition dayFromDate :: "int \<Rightarrow> int \<Rightarrow> int \<Rightarrow> int" where
  "dayFromDate y m d = DayFromYear y + sum_list (map (DaysInMonth y) [1 .. m - 1]) + (d - 1)"

definition Date_parse :: "string \<Rightarrow> int number" where
  "Date_parse s =
     (case s of
        [y1, y2, y3, y4, h1, m1, m2, h2, d1, d2] \<Rightarrow>
          (let y = digitsVal [y1, y2, y3, y4];
               m = digitsVal [m1, m2];
               d = digitsVal [d1, d2]
           in if list_all isDigit [y1, y2, y3, y4, m1, m2, d1, d2]
                 \<and> h1 = CHR ''-'' \<and> h2 = CHR ''-''
                 \<and> 1 \<le> m \<and> m \<le> 12 \<and> 1 \<le> d \<and> d \<le> DaysInMonth y m
              then Num (dayFromDate y m d * msPerDay)
              else NaN)
      | _ \<Rightarrow> NaN)"

text \<open>Subtraction and comparison of time values; an operand \<open>NaN\<close> gives \<open>NaN\<close> and \<open>false\<close>.\<close>

fun js_minus :: "int number \<Rightarrow> int number \<Rightarrow> int number" where
  "js_minus (Num a) (Num b) = Num (a - b)"
| "js_minus _ _ = NaN"

fun js_less :: "int number \<Rightarrow> int number \<Rightarrow> bool" where
  "js_less (Num a) (Num b) = (a < b)"
| "js_less _ _ = False"

text \<open>
  \<open>toDateString\<close> prints the weekday, month, day and year of the local calendar day of a
  date, or \<open>Invalid Date\<close>.  Two such texts are equal exactly when both dates are invalid or
  both fall on the same local day, so the model keeps the number of the local day in
  place of the text.
\<close>

datatype DateText = InvalidDate | LocalDay int

definition localDay :: "(int \<Rightarrow> int) \<Rightarrow> int \<Rightarrow> int" where
  "localDay localTZA t = (t + localTZA t) div msPerDay"

fun toDateString :: "(int \<Rightarrow> int) \<Rightarrow> int number \<Rightarrow> DateText" where
  "toDateString localTZA (Num t) = LocalDay (localDay localTZA t)"
| "toDateString localTZA _ = InvalidDate"

section \<open>Due-date predicates (lines 703-711)\<close>

text \<open>
  The source reads the clock with \<open>new Date()\<close> on both sides of the conjunction; the
  model takes the two readings as one moment \<open>now\<close>.  \<open>!dueDate\<close> holds for \<open>null\<close> and
  for the empty string.
\<close>

definition isOverdue :: "(string \<Rightarrow> int number) \<Rightarrow> (int \<Rightarrow> int) \<Rightarrow> int \<Rightarrow> string option \<Rightarrow> bool" where
  "isOverdue getTime localTZA now due =
     (case due of
        None \<Rightarrow> False
      | Some d \<Rightarrow>
          if d = [] then False
          else js_less (getTime d) (Num now)
             \<and> toDateString localTZA (getTime d) \<noteq> toDateString localTZA (Num now))"

definition isDueToday :: "(string \<Rightarrow> int number) \<Rightarrow> (int \<Rightarrow> int) \<Rightarrow> int \<Rightarrow> string option \<Rightarrow> bool" where
  "isDueToday getTime localTZA now due =
     (case due of
        None \<Rightarrow> False
      | Some d \<Rightarrow>
          if d = [] then False
          else toDateString localTZA (getTime d) = toDateString localTZA (Num now))"

section \<open>View pipeline (lines 664-691)\<close>

text \<open>
  \<open>toLowerCase\<close> on the code units 0..255 maps \<open>A\<close>..\<open>Z\<close> and the capital letters
  U+00C0..U+00DE (without the multiplication sign U+00D7) to the letter 32 places on;
  \<open>includes\<close> tests for a contiguous occurrence.
\<close>

definition toLowerCase :: "string \<Rightarrow> string" where
  "toLowerCase s =
     map (\<lambda>c. let n = (of_char c :: nat)
              in if (65 \<le> n \<and> n \<le> 90) \<or> (192 \<le> n \<and> n \<le> 222 \<and> n \<noteq> 215)
                 then char_of (n + 32) else c) s"

definition includes' :: "string \<Rightarrow> string \<Rightarrow> bool" where
  "includes' s q = list_ex (\<lambda>i. take (length q) (drop i s) = q) [0 ..< Suc (length s)]"

definition priorityOrder :: "Priority \<Rightarrow> int" where
  "priorityOrder p = (case p of High \<Rightarrow> 0 | Medium \<Rightarrow> 1 | Low \<Rightarrow> 2)"

text \<open>
  \<open>new Date(x).getTime()\<close> for the \<open>createdAt\<close> field: a \<open>Date\<close> object gives its own time
  value, a string is parsed.
\<close>

definition createdTime :: "(string \<Rightarrow> int number) \<Rightarrow> CreatedAt \<Rightarrow> int number" where
  "createdTime getTime c = (case c of DateObject t \<Rightarrow> Num t | DateString s \<Rightarrow> getTime s)"

text \<open>
  The comparator passed to \<open>sort\<close>.  \<open>localeCompare\<close> is a parameter.  In the case
  \<open>dueDate\<close> the first test returns \<open>1\<close> whenever the first task has no due date, before
  the second task is looked at.
\<close>

definition compareTodos ::
  "(string \<Rightarrow> int number) \<Rightarrow> (string \<Rightarrow> string \<Rightarrow> int) \<Rightarrow> SortType \<Rightarrow> Todo \<Rightarrow> Todo \<Rightarrow> int number" where
  "compareTodos getTime localeCompare key a b =
     (case key of
        SortPriority \<Rightarrow> Num (priorityOrder (priority a) - priorityOrder (priority b))
      | SortAlphabetical \<Rightarrow> Num (localeCompare (text' a) (text' b))
      | SortDueDate \<Rightarrow>
          (case dueDate a of
             None \<Rightarrow> Num 1
           | Some da \<Rightarrow>
               if da = [] then Num 1
               else (case dueDate b of
                       None \<Rightarrow> Num (- 1)
                     | Some db \<Rightarrow>
                         if db = [] then Num (- 1)
                         else js_minus (getTime da) (getTime db)))
      | SortDate \<Rightarrow> js_minus (createdTime getTime (createdAt b)) (createdTime getTime (createdAt a)))"

section \<open>Array.prototype.sort\<close>

text \<open>
  ECMAScript fixes the result of \<open>sort\<close> only for a consistent comparator; the
  comparator above is not one in the case \<open>dueDate\<close> (it returns \<open>1\<close> for a task without a
  due date against itself), so the order is the engine's.  The model is the sort of V8
  (\<open>third_party/v8/builtins/array-sort.tq\<close>), the engine of Node.js and Chromium, for an
  array of fewer than 64 elements: there \<open>ComputeMinRunLength\<close> is the length of the
  array, so \<open>ArrayTimSortImpl\<close> finds the run at the start of the array
  (\<open>CountAndMakeRun\<close>), extends it to the whole array by \<open>BinaryInsertionSort\<close>, and has
  nothing to merge.  A longer array is cut into several runs that are merged; that part
  is not modelled, and \<open>Array_sort\<close> is \<open>None\<close> there.

  The comparator's result is used only through the test \<open>order < 0\<close>; \<open>NaN\<close> counts as
  \<open>0\<close>.
\<close>

fun isNegative :: "int number \<Rightarrow> bool" where
  "isNegative (Num n) = (n < 0)"
| "isNegative NegInfinity = True"
| "isNegative _ = False"

text \<open>
  The loop of \<open>CountAndMakeRun\<close>: the number of elements after the second one that
  continue the run, each compared with the element before it.  A descending run is
  strictly descending (\<open>order < 0\<close>), an ascending one is not (\<open>order \<ge> 0\<close>).
\<close>

fun runLength :: "bool \<Rightarrow> ('a \<Rightarrow> 'a \<Rightarrow> int number) \<Rightarrow> 'a \<Rightarrow> 'a list \<Rightarrow> nat" where
  "runLength isDescending cmp previousElement [] = 0"
| "runLength isDescending cmp previousElement (currentElement # rest) =
     (if isNegative (cmp currentElement previousElement) = isDescending
      then Suc (runLength isDescending cmp currentElement rest) else 0)"

text \<open>
  \<open>CountAndMakeRun(0, length)\<close>: the length of the run and the array after it, a
  descending run having been reversed in place.
\<close>

fun CountAndMakeRun :: "('a \<Rightarrow> 'a \<Rightarrow> int number) \<Rightarrow> 'a list \<Rightarrow> nat \<times> 'a list" where
  "CountAndMakeRun cmp [] = (0, [])"
| "CountAndMakeRun cmp [x] = (1, [x])"
| "CountAndMakeRun cmp (elementHigh # elementLow # rest) =
     (let isDescending = isNegative (cmp elementLow elementHigh);
          n = 2 + runLength isDescending cmp elementLow rest;
          workArray = elementHigh # elementLow # rest
      in (n, if isDescending then rev (take n workArray) @ drop n workArray else workArray))"

text \<open>
  The inner loop of \<open>BinaryInsertionSort\<close>: the position of the pivot among the
  elements \<open>left ..< right\<close>.
\<close>

function binarySearch :: "('a \<Rightarrow> 'a \<Rightarrow> int number) \<Rightarrow> 'a \<Rightarrow> 'a list \<Rightarrow> nat \<Rightarrow> nat \<Rightarrow> nat" where
  "binarySearch cmp pivot workArray left right =
     (if left < right
      then (if isNegative (cmp pivot (workArray ! (left + (right - left) div 2)))
            then binarySearch cmp pivot workArray left (left + (right - left) div 2)
            else binarySearch cmp pivot workArray (left + (right - left) div 2 + 1) right)
      else left)"
  by pat_completeness auto
termination
  by (relation "measure (\<lambda>(cmp, pivot, workArray, left, right). right - left)") auto

declare binarySearch.simps [simp del]

text \<open>
  One round of the outer loop: the element at \<open>start\<close> is moved to its position
  among the elements before it, those behind the position moving up by one.
\<close>

definition insertPivot :: "('a \<Rightarrow> 'a \<Rightarrow> int number) \<Rightarrow> nat \<Rightarrow> 'a list \<Rightarrow> 'a list" where
  "insertPivot cmp start workArray =
     (let pivot = workArray ! start;
          left = binarySearch cmp pivot workArray 0 start
      in take left workArray @ pivot # drop left (take start workArray)
           @ drop (Suc start) workArray)"

primrec insertionSteps :: "('a \<Rightarrow> 'a \<Rightarrow> int number) \<Rightarrow> nat \<Rightarrow> nat \<Rightarrow> 'a list \<Rightarrow> 'a list" where
  "insertionSteps cmp 0 start workArray = workArray"
| "insertionSteps cmp (Suc n) start workArray =
     insertionSteps cmp n (Suc start) (insertPivot cmp start workArray)"

text \<open>\<open>BinaryInsertionSort(0, startArg, length)\<close>: the rounds \<open>start ..< length\<close>.\<close>

definition BinaryInsertionSort :: "('a \<Rightarrow> 'a \<Rightarrow> int number) \<Rightarrow> nat \<Rightarrow> 'a list \<Rightarrow> 'a list" where
  "BinaryInsertionSort cmp startArg workArray =
     (let start = (if startArg = 0 then 1 else startArg)
      in insertionSteps cmp (length workArray - start) start workArray)"

definition Array_sort :: "('a \<Rightarrow> 'a \<Rightarrow> int number) \<Rightarrow> 'a list \<Rightarrow> 'a list option" where
  "Array_sort cmp arr =
     (if length arr < 2 then Some arr
      else if 64 \<le> length arr then None
      else (case CountAndMakeRun cmp arr of
              (currentRunLength, workArray) \<Rightarrow>
                Some (if currentRunLength < length arr
                      then BinaryInsertionSort cmp currentRunLength workArray
                      else workArray)))"

text \<open>
  The visible list (lines 662-690): the status filter, the category filter and the
  search are applied, and the result is sorted.
\<close>

definition filteredTodos ::
  "(string \<Rightarrow> int number) \<Rightarrow> (string \<Rightarrow> string \<Rightarrow> int) \<Rightarrow> AppState \<Rightarrow> Todo list option" where
  "filteredTodos getTime localeCompare s =
     Array_sort (compareTodos getTime localeCompare (sortBy s))
       (filter (\<lambda>todo. includes' (toLowerCase (text' todo)) (toLowerCase (searchQuery s)))
         (filter (\<lambda>todo. case categoryFilter s of None \<Rightarrow> True | Some c \<Rightarrow> category todo = c)
           (filter (\<lambda>todo. case filter_st s of
                              FilterActive \<Rightarrow> \<not> completed todo
                            | FilterCompleted \<Rightarrow> completed todo
                            | FilterAll \<Rightarrow> True)
             (todos s))))"

section \<open>Order by due date, as a property\<close>







section \<open>JSON values\<close>

text \<open>
  The values that the component keeps in its state and that \<open>JSON.parse\<close> returns:
  \<open>null\<close>, booleans, numbers, strings, \<open>Date\<close> objects (their time value), arrays, and
  objects as lists of properties in the order of their creation.  Numbers are integers
  of magnitude below \<open>2^53\<close>, which JavaScript represents exactly.  A property name
  made of digits only may be an array index, which an engine keeps in numeric order
  before the other names; such names are outside the model.
\<close>

datatype JSValue =
    VNull
  | VBool bool
  | VNum int
  | VStr string
  | VDate int
  | VArr "JSValue list"
  | VObj "(string \<times> JSValue) list"

definition maxSafeInteger :: int where
  "maxSafeInteger = 9007199254740991"

definition indexLike :: "string \<Rightarrow> bool" where
  "indexLike k = (k \<noteq> [] \<and> list_all isDigit k)"

section \<open>Date.prototype.toISOString\<close>

text \<open>
  The year, month and day of a day number in the proleptic Gregorian calendar, by
  400-year eras that start on 1 March, and the text \<open>YYYY-MM-DDTHH:mm:ss.sssZ\<close>; years
  outside 0..9999 are written with a sign and six digits.
\<close>

definition digitChar :: "nat \<Rightarrow> char" where
  "digitChar d = char_of (48 + d)"

fun showNat :: "nat \<Rightarrow> string" where
  "showNat n = (if n < 10 then [digitChar n] else showNat (n div 10) @ [digitChar (n mod 10)])"

declare showNat.simps [simp del]

definition showInt :: "int \<Rightarrow> string" where
  "showInt n = (if n < 0 then CHR ''-'' # showNat (nat (- n)) else showNat (nat n))"

definition padLeft :: "nat \<Rightarrow> string \<Rightarrow> string" where
  "padLeft w s = replicate (w - length s) CHR ''0'' @ s"

definition civilFromDays :: "int \<Rightarrow> int \<times> int \<times> int" where
  "civilFromDays z0 =
     (let z = z0 + 719468;
          era = z div 146097;
          doe = z mod 146097;
          yoe = (doe - doe div 1460 + doe div 36524 - doe div 146096) div 365;
          doy = doe - (365 * yoe + yoe div 4 - yoe div 100);
          mp = (5 * doy + 2) div 153;
          d = doy - (153 * mp + 2) div 5 + 1;
          m = (if mp < 10 then mp + 3 else mp - 9);
          y = yoe + era * 400 + (if m \<le> 2 then 1 else 0)
      in (y, m, d))"

definition showYear :: "int \<Rightarrow> string" where
  "showYear y =
     (if 0 \<le> y \<and> y \<le> 9999 then padLeft 4 (showNat (nat y))
      else if y < 0 then CHR ''-'' # padLeft 6 (showNat (nat (- y)))
      else CHR ''+'' # padLeft 6 (showNat (nat y)))"

definition toISOString :: "int \<Rightarrow> string" where
  "toISOString t =
     (let (y, m, d) = civilFromDays (t div msPerDay);
          ms = t mod msPerDay
      in showYear y @ ''-'' @ padLeft 2 (showNat (nat m)) @ ''-'' @ padLeft 2 (showNat (nat d))
         @ ''T'' @ padLeft 2 (showNat (nat (ms div 3600000)))
         @ '':'' @ padLeft 2 (showNat (nat (ms div 60000 mod 60)))
         @ '':'' @ padLeft 2 (showNat (nat (ms div 1000 mod 60)))
         @ ''.'' @ padLeft 3 (showNat (nat (ms mod 1000))) @ ''Z'')"

section \<open>JSON.stringify\<close>

text \<open>
  A string is quoted with the escapes of ECMAScript's QuoteJSONString: the quotation
  mark, the backslash, the five short escapes and \<open>\u00XX\<close> for the other code units
  below U+0020.  A \<open>Date\<close> is written as the string its \<open>toJSON\<close> returns, which is
  \<open>toISOString\<close>.  The properties of an object are written in their order.
\<close>

definition hexDigit :: "nat \<Rightarrow> char" where
  "hexDigit d = (if d < 10 then char_of (48 + d) else char_of (87 + d))"

definition escapeChar :: "char \<Rightarrow> string" where
  "escapeChar c =
     (let n = (of_char c :: nat) in
      if c = CHR 0x22 then [CHR 0x5C, CHR 0x22]
      else if c = CHR 0x5C then [CHR 0x5C, CHR 0x5C]
      else if n = 8 then [CHR 0x5C, CHR ''b'']
      else if n = 9 then [CHR 0x5C, CHR ''t'']
      else if n = 10 then [CHR 0x5C, CHR ''n'']
      else if n = 12 then [CHR 0x5C, CHR ''f'']
      else if n = 13 then [CHR 0x5C, CHR ''r'']
      else if n < 32 then [CHR 0x5C, CHR ''u'', CHR ''0'', CHR ''0'', hexDigit (n div 16), hexDigit (n mod 16)]
      else [c])"

definition quoteJSON :: "string \<Rightarrow> string" where
  "quoteJSON s = CHR 0x22 # concat (map escapeChar s) @ [CHR 0x22]"

fun commaSep :: "string list \<Rightarrow> string" where
  "commaSep [] = []"
| "commaSep (x # xs) = x @ concat (map (\<lambda>y. CHR '','' # y) xs)"

fun JSON_stringify :: "JSValue \<Rightarrow> string" where
  "JSON_stringify VNull = ''null''"
| "JSON_stringify (VBool b) = (if b then ''true'' else ''false'')"
| "JSON_stringify (VNum n) = showInt n"
| "JSON_stringify (VStr s) = quoteJSON s"
| "JSON_stringify (VDate t) = quoteJSON (toISOString t)"
| "JSON_stringify (VArr vs) = ''['' @ commaSep (map JSON_stringify vs) @ '']''"
| "JSON_stringify (VObj kvs) =
     ''{'' @ commaSep (map (\<lambda>(k, v). quoteJSON k @ '':'' @ JSON_stringify v) kvs) @ ''}''"

section \<open>JSON.parse\<close>

text \<open>
  \<open>JSON.parse\<close> returns the value that a text denotes or raises \<open>SyntaxError\<close>.  The
  parser reads the grammar of ECMA-404.  Some texts are valid JSON but denote values
  outside the model: a number with a fraction or an exponent or beyond the safe
  integers, the number \<open>-0\<close>, an escape \<open>\uXXXX\<close> above U+00FF, and a property name
  made of digits.  On these the parser answers \<open>NotModelled\<close> where it meets them, and
  says nothing about the rest of the text.
\<close>

datatype ParseError = SyntaxError | NotModelled

definition isJsonWs :: "char \<Rightarrow> bool" where
  "isJsonWs c = ((of_char c :: nat) \<in> {9, 10, 13, 32})"

definition skipWs :: "string \<Rightarrow> string" where
  "skipWs s = dropWhile isJsonWs s"

definition hexVal :: "char \<Rightarrow> nat option" where
  "hexVal c =
     (let n = (of_char c :: nat) in
      if 48 \<le> n \<and> n \<le> 57 then Some (n - 48)
      else if 97 \<le> n \<and> n \<le> 102 then Some (n - 87)
      else if 65 \<le> n \<and> n \<le> 70 then Some (n - 55)
      else None)"

definition unescape :: "char \<Rightarrow> char option" where
  "unescape e =
     (if e = CHR 0x22 \<or> e = CHR 0x5C \<or> e = CHR ''/'' then Some e
      else if e = CHR ''b'' then Some (CHR 0x08)
      else if e = CHR ''f'' then Some (CHR 0x0C)
      else if e = CHR ''n'' then Some (CHR 0x0A)
      else if e = CHR ''r'' then Some (CHR 0x0D)
      else if e = CHR ''t'' then Some (CHR 0x09)
      else None)"

definition consChar :: "char \<Rightarrow> ParseError + string \<times> string \<Rightarrow> ParseError + string \<times> string" where
  "consChar c res = (case res of Inl e \<Rightarrow> Inl e | Inr (s, rest) \<Rightarrow> Inr (c # s, rest))"

text \<open>The characters of a string after its opening quotation mark, up to the closing one.\<close>

fun parseChars :: "string \<Rightarrow> ParseError + string \<times> string" where
  "parseChars [] = Inl SyntaxError"
| "parseChars (c # r) =
     (if c = CHR 0x22 then Inr ([], r)
      else if c = CHR 0x5C then
        (case r of
           [] \<Rightarrow> Inl SyntaxError
         | e # r1 \<Rightarrow>
             if e = CHR ''u'' then
               (case r1 of
                  h1 # h2 # h3 # h4 # r2 \<Rightarrow>
                    (case (hexVal h1, hexVal h2, hexVal h3, hexVal h4) of
                       (Some a, Some b, Some c', Some d) \<Rightarrow>
                         if ((a * 16 + b) * 16 + c') * 16 + d < 256
                         then consChar (char_of (((a * 16 + b) * 16 + c') * 16 + d)) (parseChars r2)
                         else Inl NotModelled
                     | _ \<Rightarrow> Inl SyntaxError)
                | _ \<Rightarrow> Inl SyntaxError)
             else (case unescape e of
                     None \<Rightarrow> Inl SyntaxError
                   | Some ch \<Rightarrow> consChar ch (parseChars r1)))
      else if (of_char c :: nat) < 32 then Inl SyntaxError
      else consChar c (parseChars r))"

text \<open>A property name with its colon.\<close>

definition parseKey :: "string \<Rightarrow> ParseError + string \<times> string" where
  "parseKey s =
     (case skipWs s of
        [] \<Rightarrow> Inl SyntaxError
      | c # r \<Rightarrow>
          if c \<noteq> CHR 0x22 then Inl SyntaxError
          else (case parseChars r of
                  Inl e \<Rightarrow> Inl e
                | Inr (k, r1) \<Rightarrow>
                    if indexLike k then Inl NotModelled
                    else (case skipWs r1 of
                            [] \<Rightarrow> Inl SyntaxError
                          | c1 # r2 \<Rightarrow> if c1 = CHR '':'' then Inr (k, r2) else Inl SyntaxError)))"

text \<open>
  A number: an optional minus sign, then \<open>0\<close> or a digit sequence without a leading
  zero.  A well-formed fraction or exponent after it makes the number one outside the
  model.
\<close>

definition exponentOk :: "string \<Rightarrow> bool" where
  "exponentOk r =
     (case r of
        [] \<Rightarrow> False
      | c # r1 \<Rightarrow>
          (c = CHR ''e'' \<or> c = CHR ''E'')
          \<and> (case r1 of
                [] \<Rightarrow> False
              | s # r2 \<Rightarrow>
                  if s = CHR ''+'' \<or> s = CHR ''-'' then takeWhile isDigit r2 \<noteq> []
                  else isDigit s))"

definition fractionOk :: "string \<Rightarrow> bool" where
  "fractionOk r =
     (case r of
        [] \<Rightarrow> False
      | c # r1 \<Rightarrow>
          c = CHR ''.'' \<and> takeWhile isDigit r1 \<noteq> []
          \<and> (case dropWhile isDigit r1 of
                [] \<Rightarrow> True
              | c1 # r2 \<Rightarrow> (c1 = CHR ''e'' \<or> c1 = CHR ''E'') \<longrightarrow> exponentOk (c1 # r2)))"

definition parseNumber :: "string \<Rightarrow> ParseError + int \<times> string" where
  "parseNumber s =
     (let neg = (s \<noteq> [] \<and> hd s = CHR ''-'');
          s1 = (if neg then tl s else s);
          ds = takeWhile isDigit s1;
          r = dropWhile isDigit s1;
          n = (if neg then - digitsVal ds else digitsVal ds)
      in if ds = [] then Inl SyntaxError
         else if hd ds = CHR ''0'' \<and> 1 < length ds then Inl SyntaxError
         else if r \<noteq> [] \<and> hd r = CHR ''.'' then
           (if fractionOk r then Inl NotModelled else Inl SyntaxError)
         else if r \<noteq> [] \<and> (hd r = CHR ''e'' \<or> hd r = CHR ''E'') then
           (if exponentOk r then Inl NotModelled else Inl SyntaxError)
         else if neg \<and> n = 0 then Inl NotModelled
         else if \<bar>n\<bar> \<le> maxSafeInteger then Inr (n, r)
         else Inl NotModelled)"

text \<open>
  Assigning a property: a name that the object has keeps its place and gets the new
  value, a new name goes to the end.  \<open>JSON.parse\<close> builds objects this way, so of two
  members with one name the later value stands at the earlier place.
\<close>

fun setProperty :: "string \<Rightarrow> JSValue \<Rightarrow> (string \<times> JSValue) list \<Rightarrow> (string \<times> JSValue) list" where
  "setProperty k v [] = [(k, v)]"
| "setProperty k v ((k', v') # kvs) =
     (if k' = k then (k, v) # kvs else (k', v') # setProperty k v kvs)"

text \<open>
  The parser proper reads a value and then what may follow it.  The values under
  construction around the current position are kept on a stack: an array with the
  elements read so far, or an object with the properties read so far and the name whose
  value is being read.  Every step consumes input: the readers of strings, names and
  numbers each return a rest shorter than what they were given.
\<close>

datatype Frame =
    InArray "JSValue list"
  | InObject "(string \<times> JSValue) list" string

function parseValue :: "Frame list \<Rightarrow> string \<Rightarrow> ParseError + JSValue"
  and afterValue :: "JSValue \<Rightarrow> Frame list \<Rightarrow> string \<Rightarrow> ParseError + JSValue" where
  "parseValue st s =
     (case skipWs s of
        [] \<Rightarrow> Inl SyntaxError
      | c # r \<Rightarrow>
          if c = CHR ''['' then
            (case skipWs r of
               [] \<Rightarrow> Inl SyntaxError
             | c1 # r1 \<Rightarrow>
                 if c1 = CHR '']'' then afterValue (VArr []) st r1
                 else parseValue (InArray [] # st) (c1 # r1))
          else if c = CHR ''{'' then
            (case skipWs r of
               [] \<Rightarrow> Inl SyntaxError
             | c1 # r1 \<Rightarrow>
                 if c1 = CHR ''}'' then afterValue (VObj []) st r1
                 else (case parseKey (c1 # r1) of
                         Inl e \<Rightarrow> Inl e
                       | Inr (k, r2) \<Rightarrow> parseValue (InObject [] k # st) r2))
          else if c = CHR 0x22 then
            (case parseChars r of
               Inl e \<Rightarrow> Inl e
             | Inr (str, r1) \<Rightarrow> afterValue (VStr str) st r1)
          else if c = CHR ''t'' then
            (if take 3 r = ''rue'' then afterValue (VBool True) st (drop 3 r) else Inl SyntaxError)
          else if c = CHR ''f'' then
            (if take 4 r = ''alse'' then afterValue (VBool False) st (drop 4 r) else Inl SyntaxError)
          else if c = CHR ''n'' then
            (if take 3 r = ''ull'' then afterValue VNull st (drop 3 r) else Inl SyntaxError)
          else (case parseNumber (c # r) of
                  Inl e \<Rightarrow> Inl e
                | Inr (n, r1) \<Rightarrow> afterValue (VNum n) st r1))"
| "afterValue v st s =
     (case st of
        [] \<Rightarrow> if skipWs s = [] then Inr v else Inl SyntaxError
      | InArray acc # st' \<Rightarrow>
          (case skipWs s of
             [] \<Rightarrow> Inl SyntaxError
           | c # r \<Rightarrow>
               if c = CHR '','' then parseValue (InArray (acc @ [v]) # st') r
               else if c = CHR '']'' then afterValue (VArr (acc @ [v])) st' r
               else Inl SyntaxError)
      | InObject acc k # st' \<Rightarrow>
          (case skipWs s of
             [] \<Rightarrow> Inl SyntaxError
           | c # r \<Rightarrow>
               if c = CHR '','' then
                 (case parseKey r of
                    Inl e \<Rightarrow> Inl e
                  | Inr (k', r1) \<Rightarrow> parseValue (InObject (setProperty k v acc) k' # st') r1)
               else if c = CHR ''}'' then afterValue (VObj (setProperty k v acc)) st' r
               else Inl SyntaxError))"
  by pat_completeness auto
termination
proof -
  have chars: "length r < length s" if "parseChars s = Inr (x, r)" for s x r
    using that
  proof (induction "length s" arbitrary: s x r rule: less_induct)
    case less
    have IH: "length r' < length s'"
      if "parseChars s' = Inr (x', r')" "length s' < length s" for s' x' r'
      using less.hyps that by blast
    show ?case
    proof (cases s)
      case Nil
      with less.prems show ?thesis by simp
    next
      case (Cons c r0)
      with less.prems show ?thesis
        by (auto simp: consChar_def
            split: if_splits list.splits option.splits sum.splits prod.splits
            dest: IH)
    qed
  qed
  have ws: "length (skipWs s) \<le> length s" for s
    by (simp add: skipWs_def length_dropWhile_le)
  have key: "length r < length s" if a: "parseKey s = Inr (k, r)" for s k r
  proof -
    from a obtain c r0 where s: "skipWs s = c # r0"
      by (cases "skipWs s") (simp_all add: parseKey_def)
    from a s obtain k0 r1 where p: "parseChars r0 = Inr (k0, r1)"
      by (cases "parseChars r0") (auto simp: parseKey_def split: if_splits)
    from a s p obtain c1 r2 where r: "skipWs r1 = c1 # r2"
      by (cases "skipWs r1") (simp_all add: parseKey_def split: if_splits)
    from a s p r have "r2 = r"
      by (simp add: parseKey_def split: if_splits)
    with r have r': "skipWs r1 = c1 # r" by simp
    from p have "length r1 < length r0" by (rule chars)
    moreover from s ws [of s] have "length r0 < length s" by simp
    moreover from r' ws [of r1] have "length r < length r1" by simp
    ultimately show ?thesis by simp
  qed
  have num: "length r < length s" if a: "parseNumber s = Inr (n, r)" for s n r
  proof -
    define s1 where "s1 = (if s \<noteq> [] \<and> hd s = CHR ''-'' then tl s else s)"
    from a have ne: "takeWhile isDigit s1 \<noteq> []" and r: "r = dropWhile isDigit s1"
      by (auto simp: parseNumber_def Let_def s1_def split: if_splits)
    have "length (takeWhile isDigit s1) + length (dropWhile isDigit s1) = length s1"
      by (metis length_append takeWhile_dropWhile_id)
    with ne r have "length r < length s1" by (cases "takeWhile isDigit s1") auto
    moreover have "length s1 \<le> length s" by (simp add: s1_def)
    ultimately show ?thesis by simp
  qed
  show ?thesis
  proof (relation "measure (\<lambda>x. case x of Inl (st, s) \<Rightarrow> length s | Inr (v, st, s) \<Rightarrow> length s)",
      goal_cases)
    case 1
    then show ?case by simp
  next
    case (2 st s c r c1 r1)
    with ws [of s] ws [of r] show ?case by simp
  next
    case (3 st s c r c1 r1)
    with ws [of s] ws [of r] show ?case by simp
  next
    case (4 st s c r c1 r1)
    with ws [of s] ws [of r] show ?case by simp
  next
    case (5 st s c r c1 r1 x k r2)
    with ws [of s] ws [of r] key [of "c1 # r1" k r2] show ?case by simp
  next
    case (6 st s c r x str r1)
    with ws [of s] chars [of r str r1] show ?case by simp
  next
    case (7 st s c r)
    with ws [of s] show ?case by simp
  next
    case (8 st s c r)
    with ws [of s] show ?case by simp
  next
    case (9 st s c r)
    with ws [of s] show ?case by simp
  next
    case (10 st s c r x n r1)
    with ws [of s] num [of "c # r" n r1] show ?case by simp
  next
    case (11 v st s f st' acc c r)
    with ws [of s] show ?case by simp
  next
    case (12 v st s f st' acc c r)
    with ws [of s] show ?case by simp
  next
    case (13 v st s f st' acc k c r x k' r1)
    with ws [of s] key [of r k' r1] show ?case by simp
  next
    case (14 v st s f st' acc k c r)
    with ws [of s] show ?case by simp
  qed
qed

declare parseValue.simps [simp del] afterValue.simps [simp del]

definition JSON_parse :: "string \<Rightarrow> ParseError + JSValue" where
  "JSON_parse s = parseValue [] s"

section \<open>What a written value reads back as\<close>

text \<open>
  \<open>asParsed v\<close> is \<open>v\<close> with every \<open>Date\<close> replaced by the string that \<open>toISOString\<close>
  gives for it: JSON has no dates, and \<open>JSON.parse\<close> is called without a reviver.  A
  value is \<open>serializable\<close> when its numbers are safe integers and no object has two
  properties of one name or a name made of digits.
  \<open>endsValue\<close> describes the text that may follow a value inside a JSON text.
\<close>

fun asParsed :: "JSValue \<Rightarrow> JSValue" where
  "asParsed (VDate t) = VStr (toISOString t)"
| "asParsed (VArr vs) = VArr (map asParsed vs)"
| "asParsed (VObj kvs) = VObj (map (\<lambda>(k, v). (k, asParsed v)) kvs)"
| "asParsed v = v"

fun serializable :: "JSValue \<Rightarrow> bool" where
  "serializable (VNum n) = (\<bar>n\<bar> \<le> maxSafeInteger)"
| "serializable (VArr vs) = list_all serializable vs"
| "serializable (VObj kvs) =
     (distinct (map fst kvs) \<and> list_all (\<lambda>(k, v). \<not> indexLike k \<and> serializable v) kvs)"
| "serializable v = True"

definition endsValue :: "string \<Rightarrow> bool" where
  "endsValue rest =
     (case rest of [] \<Rightarrow> True | c # r \<Rightarrow> c = CHR '','' \<or> c = CHR '']'' \<or> c = CHR ''}'')"

section \<open>Persistence (lines 564-583)\<close>

text \<open>
  The tasks are stored under the key \<open>complexTodos\<close> as the JSON text of the array of
  task objects; the properties of a task stand in the order in which \<open>addTodo\<close> creates
  them.  \<open>reloaded\<close> is a task as it is after one trip through the store: the
  \<open>createdAt\<close> field holds a string.
\<close>

definition priorityName :: "Priority \<Rightarrow> string" where
  "priorityName p = (case p of Low \<Rightarrow> ''low'' | Medium \<Rightarrow> ''medium'' | High \<Rightarrow> ''high'')"

definition categoryName :: "Category \<Rightarrow> string" where
  "categoryName c =
     (case c of Personal \<Rightarrow> ''personal'' | Work \<Rightarrow> ''work'' | Shopping \<Rightarrow> ''shopping''
      | Health \<Rightarrow> ''health'' | Other \<Rightarrow> ''other'')"

definition todoValue :: "Todo \<Rightarrow> JSValue" where
  "todoValue t =
     VObj [(''id'', VNum (id' t)),
           (''text'', VStr (text' t)),
           (''completed'', VBool (completed t)),
           (''priority'', VStr (priorityName (priority t))),
           (''category'', VStr (categoryName (category t))),
           (''dueDate'', case dueDate t of None \<Rightarrow> VNull | Some d \<Rightarrow> VStr d),
           (''createdAt'', case createdAt t of DateObject x \<Rightarrow> VDate x | DateString s \<Rightarrow> VStr s),
           (''notes'', VStr (notes' t))]"

definition saveTodos :: "Todo list \<Rightarrow> string" where
  "saveTodos ts = JSON_stringify (VArr (map todoValue ts))"

definition createdText :: "CreatedAt \<Rightarrow> string" where
  "createdText c = (case c of DateObject x \<Rightarrow> toISOString x | DateString s \<Rightarrow> s)"

definition reloaded :: "Todo \<Rightarrow> Todo" where
  "reloaded t = t\<lparr> createdAt := DateString (createdText (createdAt t)) \<rparr>"

text \<open>
  The effect that runs once on mount.  \<open>localStorage.getItem\<close> returns \<open>null\<close> for a key
  that is absent; \<open>if (savedTodos)\<close> skips \<open>null\<close> and the empty string.  The state starts
  as the empty array and \<open>false\<close>, and each value that passes the test is replaced by what
  \<open>JSON.parse\<close> returns.  Nothing catches an exception of \<open>JSON.parse\<close>: the effect fails
  with it.  The item stored under the key \<open>darkMode\<close> is the field \<open>darkModeItem\<close>.
\<close>

record Storage =
  complexTodos :: "string option"
  darkModeItem :: "string option"

record Startup =
  startTodos :: JSValue
  startDarkMode :: JSValue

definition loadOnMount :: "Storage \<Rightarrow> ParseError + Startup" where
  "loadOnMount store =
     (case (case complexTodos store of
              None \<Rightarrow> Inr (VArr [])
            | Some savedTodos \<Rightarrow> if savedTodos = [] then Inr (VArr []) else JSON_parse savedTodos) of
        Inl e \<Rightarrow> Inl e
      | Inr ts \<Rightarrow>
          (case (case darkModeItem store of
                   None \<Rightarrow> Inr (VBool False)
                 | Some savedDarkMode \<Rightarrow>
                     if savedDarkMode = [] then Inr (VBool False) else JSON_parse savedDarkMode) of
             Inl e \<Rightarrow> Inl e
           | Inr dm \<Rightarrow> Inr \<lparr> startTodos = ts, startDarkMode = dm \<rparr>))"

section \<open>Sequences of operations\<close>

text \<open>
  One add operation as the user performs it: the form's change handlers store the
  entered values in the state variables, then \<open>addTodo\<close> runs with the clock readings
  of that moment.
\<close>

record AddRequest =
  req_newId :: int
  req_now :: int
  req_text :: string
  req_priority :: Priority
  req_category :: Category
  req_dueDate :: string
  req_notes :: string

definition fillForm :: "AddRequest \<Rightarrow> AppState \<Rightarrow> AppState" where
  "fillForm r s =
     s\<lparr> inputValue := req_text r, priority_st := req_priority r, category_st := req_category r,
        dueDate_st := req_dueDate r, notes_st := req_notes r \<rparr>"

definition submit :: "AddRequest \<Rightarrow> AppState \<Rightarrow> AppState" where
  "submit r s = addTodo (req_newId r) (req_now r) (fillForm r s)"

definition submitAll :: "AddRequest list \<Rightarrow> AppState \<Rightarrow> AppState" where
  "submitAll rs s = fold submit rs s"

text \<open>The store operations as one type, to speak about every operation at once.\<close>

datatype Action =
    AddTodo int int
  | ToggleTodo int
  | DeleteTodo int
  | SaveEdit int
  | UpdatePriority int Priority
  | ClearCompleted

fun applyAction :: "Action \<Rightarrow> AppState \<Rightarrow> AppState" where
  "applyAction (AddTodo newId now) s = addTodo newId now s"
| "applyAction (ToggleTodo i) s = toggleTodo i s"
| "applyAction (DeleteTodo i) s = deleteTodo i s"
| "applyAction (SaveEdit i) s = saveEdit i s"
| "applyAction (UpdatePriority i p) s = updatePriority i p s"
| "applyAction ClearCompleted s = clearCompleted s"

section \<open>Sample values\<close>

definition demoTodo :: "int \<Rightarrow> bool \<Rightarrow> Priority \<Rightarrow> Todo" where
  "demoTodo i c p =
     \<lparr> id' = i, text' = ''task'', completed = c, priority = p, category = Work,
       dueDate = None, createdAt = DateObject i, notes' = [] \<rparr>"

definition demoState :: "Todo list \<Rightarrow> string \<Rightarrow> AppState" where
  "demoState ts inp =
     \<lparr> todos = ts, inputValue = inp, priority_st = High, category_st = Shopping,
       dueDate_st = [], notes_st = [], filter_st = FilterAll, categoryFilter = None,
       sortBy = SortDate, searchQuery = [], darkMode = False, showAddForm = True,
       editingId = None, editText = [], showStats = True, deletingId = None,
       addedId = None \<rparr>"

definition demoRequest :: "int \<Rightarrow> string \<Rightarrow> AddRequest" where
  "demoRequest clock txt =
     \<lparr> req_newId = clock, req_now = clock, req_text = txt, req_priority = High,
       req_category = Shopping, req_dueDate = [], req_notes = [] \<rparr>"

definition dueTodo :: "int \<Rightarrow> string option \<Rightarrow> Todo" where
  "dueTodo i d =
     \<lparr> id' = i, text' = ''task'', completed = False, priority = Medium, category = Personal,
       dueDate = d, createdAt = DateObject i, notes' = [] \<rparr>"

definition sortedByDue :: "Todo list \<Rightarrow> AppState" where
  "sortedByDue ts = (demoState ts [])\<lparr> sortBy := SortDueDate \<rparr>"

definition storedTodo :: "int \<Rightarrow> string \<Rightarrow> Todo" where
  "storedTodo i created =
     \<lparr> id' = i, text' = ''Buy milk'', completed = True, priority = High, category = Shopping,
       dueDate = Some ''2024-01-01'', createdAt = DateString created, notes' = ''2 l'' \<rparr>"

section \<open>Adding a task\<close>

text \<open>
  Claim C7.  When the entered text trims to the empty string, \<open>addTodo\<close> returns the
  state it was given: no task is created and nothing else changes.
\<close>

theorem addTodo_blank_noop:
  "trim (inputValue s) = [] \<Longrightarrow> addTodo newId now s = s"
  by (simp add: addTodo_def)

theorem addTodo_blank_noop_witness:
  "trim (inputValue (demoState [demoTodo 1 False Low] [CHR 0x20, CHR 0x09, CHR 0xA0])) = []
   \<and> addTodo 1700000000000 1700000000001 (demoState [demoTodo 1 False Low] [CHR 0x20, CHR 0x09, CHR 0xA0])
       = demoState [demoTodo 1 False Low] [CHR 0x20, CHR 0x09, CHR 0xA0]"
proof -
  have h: "trim (inputValue (demoState [demoTodo 1 False Low] [CHR 0x20, CHR 0x09, CHR 0xA0])) = []"
    by (simp add: demoState_def trim_def isWhiteSpace_def)
  from addTodo_blank_noop [OF h] h show ?thesis by blast
qed

text \<open>
  Claim C6, as amended.  When the entered text does not trim to the empty string,
  \<open>addTodo\<close> puts one new task in front of the collection and leaves the tasks that
  were there as they were, in their order.  The new task carries the entered text,
  priority, category and notes, the entered due date (\<open>null\<close> when none was entered),
  \<open>completed = false\<close>, and as its id the reading of \<open>Date.now()\<close>.  That id differs
  from every id in the collection when every one of them is smaller than the reading.
\<close>

theorem addTodo_prepends:
  "trim (inputValue s) \<noteq> [] \<Longrightarrow>
   (\<exists>t. todos (addTodo newId now s) = t # todos s
      \<and> id' t = newId
      \<and> text' t = inputValue s
      \<and> \<not> completed t
      \<and> priority t = priority_st s
      \<and> category t = category_st s
      \<and> dueDate t = (if dueDate_st s = [] then None else Some (dueDate_st s))
      \<and> notes' t = notes_st s
      \<and> createdAt t = DateObject now
      \<and> (list_all (\<lambda>u. id' u < newId) (todos s) \<longrightarrow> id' t \<notin> set (map id' (todos s))))"
  by (auto simp: addTodo_def newTodo_def list_all_iff)

text \<open>
  The claim as stated promises a unique id.  A task added at the clock reading that an
  existing task has as its id shares that id.
\<close>

theorem addTodo_prepends_counterexample:
  "trim (inputValue (demoState [demoTodo 1700000000000 False Low] ''Buy milk'')) \<noteq> []
   \<and> map id' (todos (addTodo 1700000000000 1700000000000
         (demoState [demoTodo 1700000000000 False Low] ''Buy milk'')))
       = [1700000000000, 1700000000000]"
  by (simp add: addTodo_def newTodo_def demoState_def demoTodo_def trim_def isWhiteSpace_def)

theorem addTodo_prepends_witness:
  "trim (inputValue (demoState [demoTodo 5 True Low] ''Buy milk'')) \<noteq> []
   \<and> list_all (\<lambda>u. id' u < 1700000000000) (todos (demoState [demoTodo 5 True Low] ''Buy milk''))
   \<and> 1700000000000 \<notin> set (map id' (todos (demoState [demoTodo 5 True Low] ''Buy milk'')))
   \<and> todos (addTodo 1700000000000 1700000000001 (demoState [demoTodo 5 True Low] ''Buy milk''))
       = [\<lparr> id' = 1700000000000, text' = ''Buy milk'', completed = False, priority = High,
             category = Shopping, dueDate = None, createdAt = DateObject 1700000000001, notes' = [] \<rparr>,
          demoTodo 5 True Low]"
proof -
  let ?s = "demoState [demoTodo 5 True Low] ''Buy milk''"
  have h: "trim (inputValue ?s) \<noteq> []"
    by (simp add: demoState_def trim_def isWhiteSpace_def)
  have f: "list_all (\<lambda>u. id' u < 1700000000000) (todos ?s)"
    by (simp add: demoState_def demoTodo_def)
  from addTodo_prepends [OF h, of 1700000000000 1700000000001]
  obtain t where t: "todos (addTodo 1700000000000 1700000000001 ?s) = t # todos ?s"
    "id' t = 1700000000000" "text' t = inputValue ?s" "\<not> completed t"
    "priority t = priority_st ?s" "category t = category_st ?s"
    "dueDate t = (if dueDate_st ?s = [] then None else Some (dueDate_st ?s))"
    "notes' t = notes_st ?s" "createdAt t = DateObject 1700000000001"
    "list_all (\<lambda>u. id' u < 1700000000000) (todos ?s) \<longrightarrow> id' t \<notin> set (map id' (todos ?s))"
    by blast
  from t(10) f t(2) have fresh: "1700000000000 \<notin> set (map id' (todos ?s))"
    by simp
  from t have "t = \<lparr> id' = 1700000000000, text' = ''Buy milk'', completed = False, priority = High,
             category = Shopping, dueDate = None, createdAt = DateObject 1700000000001, notes' = [] \<rparr>"
    by (cases t) (simp add: demoState_def)
  with t(1) h f fresh show ?thesis by (simp add: demoState_def)
qed

section \<open>Uniqueness of ids\<close>

lemma todos_submit:
  "todos (submit r s) =
     (if trim (req_text r) = [] then todos s
      else newTodo (req_newId r) (req_now r) (fillForm r s) # todos s)"
  by (simp add: submit_def addTodo_def fillForm_def)

lemma id_newTodo: "id' (newTodo newId now s) = newId"
  by (simp add: newTodo_def)

lemma ids_submit:
  "set (map id' (todos (submit r s))) \<subseteq> insert (req_newId r) (set (map id' (todos s)))"
  by (auto simp: todos_submit id_newTodo)

lemma distinct_submit:
  "distinct (map id' (todos s)) \<Longrightarrow> req_newId r \<notin> set (map id' (todos s))
   \<Longrightarrow> distinct (map id' (todos (submit r s)))"
  by (simp add: todos_submit id_newTodo)

lemma distinct_fold_submit:
  "distinct (map id' (todos s)) \<Longrightarrow> distinct (map req_newId rs)
   \<Longrightarrow> set (map req_newId rs) \<inter> set (map id' (todos s)) = {}
   \<Longrightarrow> distinct (map id' (todos (fold submit rs s)))"
proof (induction rs arbitrary: s)
  case Nil
  then show ?case by simp
next
  case (Cons r rs)
  have fresh: "req_newId r \<notin> set (map id' (todos s))"
    using Cons.prems(3) by auto
  have d: "distinct (map id' (todos (submit r s)))"
    using Cons.prems(1) fresh by (rule distinct_submit)
  have notin: "req_newId r \<notin> set (map req_newId rs)"
    and drs: "distinct (map req_newId rs)"
    using Cons.prems(2) by simp_all
  have disj: "set (map req_newId rs) \<inter> set (map id' (todos s)) = {}"
    using Cons.prems(3) by auto
  have "set (map req_newId rs) \<inter> set (map id' (todos (submit r s))) = {}"
    using notin disj ids_submit [of r s] by blast
  with Cons.IH [OF d drs] show ?case by simp
qed

text \<open>
  Claim C4, as amended.  Starting from a collection whose ids are pairwise different,
  a sequence of add operations keeps the ids pairwise different when the readings of
  \<open>Date.now()\<close> at the adds are pairwise different and none of them is an id already in
  the collection.
\<close>

theorem addTodo_ids_unique:
  "distinct (map id' (todos s)) \<Longrightarrow> distinct (map req_newId rs)
   \<Longrightarrow> set (map req_newId rs) \<inter> set (map id' (todos s)) = {}
   \<Longrightarrow> distinct (map id' (todos (submitAll rs s)))"
  unfolding submitAll_def by (rule distinct_fold_submit)

text \<open>
  The claim as stated holds "regardless of how closely in time the adds occur".  Two
  adds within the same millisecond read the same \<open>Date.now()\<close> and get the same id.
\<close>

theorem addTodo_ids_unique_counterexample:
  "map id' (todos (submitAll
       [demoRequest 1700000000000 ''Buy milk'', demoRequest 1700000000000 ''Buy eggs'']
       (demoState [] []))) = [1700000000000, 1700000000000]
   \<and> \<not> distinct (map id' (todos (submitAll
        [demoRequest 1700000000000 ''Buy milk'', demoRequest 1700000000000 ''Buy eggs'']
        (demoState [] []))))"
  by (simp add: submitAll_def submit_def fillForm_def addTodo_def newTodo_def demoRequest_def
      demoState_def trim_def isWhiteSpace_def)

theorem addTodo_ids_unique_witness:
  "distinct (map id' (todos (demoState [demoTodo 5 False Low] [])))
   \<and> distinct (map req_newId
        [demoRequest 1700000000000 ''Buy milk'', demoRequest 1700000000001 ''Buy eggs''])
   \<and> set (map req_newId
        [demoRequest 1700000000000 ''Buy milk'', demoRequest 1700000000001 ''Buy eggs''])
        \<inter> set (map id' (todos (demoState [demoTodo 5 False Low] []))) = {}
   \<and> distinct (map id' (todos (submitAll
        [demoRequest 1700000000000 ''Buy milk'', demoRequest 1700000000001 ''Buy eggs'']
        (demoState [demoTodo 5 False Low] []))))"
proof -
  have h1: "distinct (map id' (todos (demoState [demoTodo 5 False Low] [])))"
    by (simp add: demoState_def)
  have h2: "distinct (map req_newId
      [demoRequest 1700000000000 ''Buy milk'', demoRequest 1700000000001 ''Buy eggs''])"
    by (simp add: demoRequest_def)
  have h3: "set (map req_newId
        [demoRequest 1700000000000 ''Buy milk'', demoRequest 1700000000001 ''Buy eggs''])
        \<inter> set (map id' (todos (demoState [demoTodo 5 False Low] []))) = {}"
    by (simp add: demoRequest_def demoState_def demoTodo_def)
  from addTodo_ids_unique [OF h1 h2 h3] h1 h2 h3 show ?thesis by blast
qed

section \<open>Toggling completion\<close>

lemma toggle_map_twice:
  "map (\<lambda>todo. if id' todo = i then todo\<lparr> completed := \<not> completed todo \<rparr> else todo)
     (map (\<lambda>todo. if id' todo = i then todo\<lparr> completed := \<not> completed todo \<rparr> else todo) ts) = ts"
  by (induction ts) auto

lemma toggle_map_absent:
  "i \<notin> set (map id' ts) \<Longrightarrow>
   map (\<lambda>todo. if id' todo = i then todo\<lparr> completed := \<not> completed todo \<rparr> else todo) ts = ts"
  by (induction ts) auto

text \<open>
  Claim C8.  \<open>toggleTodo i\<close> flips the \<open>completed\<close> flag of the tasks whose id is \<open>i\<close>
  and of no other task.  Applied twice it gives back the state it started from, so the
  flag of every task has its original value.  When no task has the id \<open>i\<close>, one
  application already leaves the state as it was.
\<close>

theorem toggleTodo_involution:
  "toggleTodo i (toggleTodo i s) = s
   \<and> map completed (todos (toggleTodo i s))
       = map (\<lambda>todo. if id' todo = i then \<not> completed todo else completed todo) (todos s)
   \<and> (i \<notin> set (map id' (todos s)) \<longrightarrow> toggleTodo i s = s)"
  by (simp add: toggleTodo_def toggle_map_twice toggle_map_absent o_def if_distrib cong: if_cong)

theorem toggleTodo_involution_witness:
  "7 \<notin> set (map id' (todos (demoState [demoTodo 1 False Low, demoTodo 2 True High] [])))
   \<and> toggleTodo 7 (demoState [demoTodo 1 False Low, demoTodo 2 True High] [])
       = demoState [demoTodo 1 False Low, demoTodo 2 True High] []
   \<and> map completed (todos (toggleTodo 2 (demoState [demoTodo 1 False Low, demoTodo 2 True High] [])))
       = [False, False]
   \<and> toggleTodo 2 (toggleTodo 2 (demoState [demoTodo 1 False Low, demoTodo 2 True High] []))
       = demoState [demoTodo 1 False Low, demoTodo 2 True High] []"
proof -
  let ?s = "demoState [demoTodo 1 False Low, demoTodo 2 True High] []"
  have h: "7 \<notin> set (map id' (todos ?s))"
    by (simp add: demoState_def demoTodo_def)
  from toggleTodo_involution [of 7 ?s] h have absent: "toggleTodo 7 ?s = ?s"
    by blast
  from toggleTodo_involution [of 2 ?s]
  have twice: "toggleTodo 2 (toggleTodo 2 ?s) = ?s"
    and once: "map completed (todos (toggleTodo 2 ?s))
       = map (\<lambda>todo. if id' todo = 2 then \<not> completed todo else completed todo) (todos ?s)"
    by blast+
  from once have "map completed (todos (toggleTodo 2 ?s)) = [False, False]"
    by (simp add: demoState_def demoTodo_def)
  with h absent twice show ?thesis by blast
qed

section \<open>Statistics\<close>

lemma length_filter_partition:
  "length (filter (\<lambda>t. \<not> P t) xs) + length (filter P xs) = length xs"
  by (induction xs) auto

lemma length_filter_conj_le:
  "length (filter (\<lambda>t. Q t \<and> P t) xs) \<le> length (filter P xs)"
  by (induction xs) auto

lemma stats_invariant:
  "active (stats s) + completed' (stats s) = total (stats s)
   \<and> highPriority (stats s) \<le> active (stats s)"
  by (simp add: stats_def length_filter_partition length_filter_conj_le)

text \<open>
  Claim C10.  In every state the active and the completed tasks add up to all tasks,
  and the high-priority count is at most the active count.  This is so in the state
  after any store operation as well, and the statistics do not change when the status
  filter, the category filter, the search query or the sort key change.
\<close>

theorem stats_partition:
  "active (stats s) + completed' (stats s) = total (stats s)
   \<and> highPriority (stats s) \<le> active (stats s)
   \<and> active (stats (applyAction a s)) + completed' (stats (applyAction a s))
       = total (stats (applyAction a s))
   \<and> highPriority (stats (applyAction a s)) \<le> active (stats (applyAction a s))
   \<and> stats (s\<lparr> filter_st := f, categoryFilter := c, searchQuery := q, sortBy := k \<rparr>) = stats s"
  using stats_invariant [of s] stats_invariant [of "applyAction a s"]
  by (simp add: stats_def)
section \<open>Progress percentage\<close>

subsection \<open>Rounding to a double\<close>

lemma bitlen_powi_bounds:
  assumes "0 < p"
  shows "2 powi (bitlen p - 1) \<le> (of_int p :: rat)" "(of_int p :: rat) < 2 powi (bitlen p)"
proof -
  from bitlen_bounds [OF assms]
  have lo: "2 ^ nat (bitlen p - 1) \<le> p" and hi: "p < 2 ^ nat (bitlen p)" by simp_all
  have ge: "1 \<le> bitlen p" using assms by (auto simp: bitlen_alt_def)
  have "(of_int (2 ^ nat (bitlen p - 1)) :: rat) \<le> of_int p"
    using lo by (simp only: of_int_le_iff)
  then show "2 powi (bitlen p - 1) \<le> (of_int p :: rat)"
    using ge by (simp add: power_int_def)
  have "(of_int p :: rat) < of_int (2 ^ nat (bitlen p))"
    using hi by (simp only: of_int_less_iff)
  then show "(of_int p :: rat) < 2 powi (bitlen p)"
    using ge by (simp add: power_int_def)
qed

text \<open>\<open>binade a\<close> is the exponent of the power of two at or below \<open>a\<close>.\<close>

lemma binade_bounds:
  assumes a: "0 < a"
  shows "2 powi (binade a) \<le> a" "a < 2 powi (binade a + 1)"
proof -
  obtain p q where pq: "quotient_of a = (p, q)" by (cases "quotient_of a")
  have q: "0 < q" using pq by (rule quotient_of_denom_pos)
  have eq: "a = of_int p / of_int q" using pq by (rule quotient_of_div)
  have p: "0 < p"
    using a q by (simp add: eq zero_less_divide_iff)
  define d where "d = bitlen p - bitlen q"
  note P = bitlen_powi_bounds [OF p] and Q = bitlen_powi_bounds [OF q]
  have qpos: "(0 :: rat) < of_int q" using q by simp
  have "2 powi (d - 1) * of_int q \<le> 2 powi (d - 1) * (2 powi (bitlen q) :: rat)"
    using Q(2) by (simp add: mult_left_mono)
  also have "\<dots> = 2 powi (bitlen p - 1)"
    by (simp add: d_def flip: power_int_add)
  also have "\<dots> \<le> of_int p" by (rule P(1))
  finally have lo: "2 powi (d - 1) \<le> a"
    using qpos by (simp add: eq pos_le_divide_eq)
  have "(of_int p :: rat) < 2 powi (bitlen p)" by (rule P(2))
  also have "\<dots> = 2 powi (d + 1) * 2 powi (bitlen q - 1)"
    by (simp add: d_def flip: power_int_add)
  also have "\<dots> \<le> 2 powi (d + 1) * of_int q"
    using Q(1) by (simp add: mult_left_mono)
  finally have hi: "a < 2 powi (d + 1)"
    using qpos by (simp add: eq pos_divide_less_eq)
  have b: "binade a = (if 2 powi d \<le> a then d else d - 1)"
    by (simp add: binade_def pq d_def Let_def)
  show "2 powi (binade a) \<le> a" using lo by (simp add: b)
  show "a < 2 powi (binade a + 1)" using hi by (auto simp: b)
qed

lemma binade_unique:
  assumes a: "0 < a" and lo: "2 powi e \<le> a" and hi: "a < 2 powi (e + 1)"
  shows "binade a = e"
proof -
  note B = binade_bounds [OF a]
  have "(2 :: rat) powi e < 2 powi (binade a + 1)" using lo B(2) by simp
  then have 1: "e < binade a + 1"
    by (metis not_less power_int_increasing one_le_numeral)
  have "(2 :: rat) powi (binade a) < 2 powi (e + 1)" using B(1) hi by simp
  then have 2: "binade a < e + 1"
    by (metis not_less power_int_increasing one_le_numeral)
  from 1 2 show ?thesis by simp
qed

lemma roundHalfEven_error: "\<bar>of_int (roundHalfEven m) - m\<bar> \<le> 1 / 2"
proof -
  have "of_int \<lfloor>m\<rfloor> \<le> m" "m < of_int \<lfloor>m\<rfloor> + 1" by linarith+
  then show ?thesis by (auto simp: roundHalfEven_def Let_def)
qed

text \<open>
  A number in the normal range is rounded to a double in its binade, or to the power of
  two that ends the binade.
\<close>

lemma toDouble_normal:
  assumes lo: "2 powi e \<le> x" and hi: "x < 2 powi (e + 1)"
    and e: "- 1022 \<le> e" "e < 1023"
  shows "toDouble x = Num (of_int (roundHalfEven (x / 2 powi (e - 52))) * 2 powi (e - 52))"
proof -
  have pos: "0 < x"
    using lo zero_less_power_int [of "2 :: rat" e] by linarith
  have b: "binade x = e" using pos lo hi by (rule binade_unique)
  define ulp :: rat where "ulp = 2 powi (e - 52)"
  define y where "y = of_int (roundHalfEven (x / ulp)) * ulp"
  have ulp_pos: "0 < ulp" by (simp add: ulp_def)
  have "ulp = 2 powi e / 2 ^ 52"
    by (simp add: ulp_def power_int_diff)
  then have ulp_le: "ulp \<le> x" using lo pos
    by (simp add: pos_divide_le_eq)
  have "y - x = (of_int (roundHalfEven (x / ulp)) - x / ulp) * ulp"
    using ulp_pos by (simp add: y_def algebra_simps)
  then have "\<bar>y - x\<bar> = \<bar>of_int (roundHalfEven (x / ulp)) - x / ulp\<bar> * ulp"
    using ulp_pos by (simp add: abs_mult)
  also have "\<dots> \<le> 1 / 2 * ulp"
    using ulp_pos roundHalfEven_error [of "x / ulp"] by (simp add: mult_right_mono)
  finally have "y \<le> 2 * x" using ulp_le by linarith
  also have "\<dots> < 2 * 2 powi (e + 1)" using hi by simp
  also have "\<dots> = 2 powi (e + 2)" by (simp add: power_int_add)
  also have "\<dots> \<le> 2 powi 1024"
    using e by (intro power_int_increasing) simp_all
  finally have fin: "\<not> 2 powi 1024 \<le> y" by simp
  have mx: "max e (- 1022) = e" using e by simp
  show ?thesis
    using pos fin by (simp add: toDouble_def Let_def b mx ulp_def y_def)
qed

text \<open>
  The relative error of one rounding is at most \<open>2 powi (- 53)\<close>, for every number
  between the smallest normal number and \<open>2 powi 1023\<close>.
\<close>

lemma toDouble_error:
  assumes lo: "2 powi (- 1022) \<le> x" and hi: "x < 2 powi 1023"
  shows "\<exists>y. toDouble x = Num y \<and> \<bar>y - x\<bar> \<le> x / 2 ^ 53"
proof -
  have pos: "0 < x"
    using lo zero_less_power_int [of "2 :: rat" "- 1022"] by linarith
  define e where "e = max (binade x) (- 1022)"
  define ulp :: rat where "ulp = 2 powi (e - 52)"
  define y where "y = of_int (roundHalfEven (x / ulp)) * ulp"
  have ulp_pos: "0 < ulp" by (simp add: ulp_def)
  have "2 powi e \<le> x"
    using binade_bounds(1) [OF pos] lo by (auto simp: e_def max_def)
  moreover have "ulp = 2 powi e / 2 ^ 52"
    by (simp add: ulp_def power_int_diff)
  ultimately have ulp_le: "ulp \<le> x / 2 ^ 52"
    by (simp add: divide_right_mono)
  have "y - x = (of_int (roundHalfEven (x / ulp)) - x / ulp) * ulp"
    using ulp_pos by (simp add: y_def algebra_simps)
  then have "\<bar>y - x\<bar> = \<bar>of_int (roundHalfEven (x / ulp)) - x / ulp\<bar> * ulp"
    using ulp_pos by (simp add: abs_mult)
  also have "\<dots> \<le> 1 / 2 * ulp"
    using ulp_pos roundHalfEven_error [of "x / ulp"] by (simp add: mult_right_mono)
  also have "\<dots> \<le> 1 / 2 * (x / 2 ^ 52)"
    using ulp_le by simp
  also have "\<dots> = x / 2 ^ 53" by simp
  finally have err: "\<bar>y - x\<bar> \<le> x / 2 ^ 53" .
  have "x / 2 ^ 53 \<le> x" using pos by (simp add: pos_divide_le_eq)
  with err have "y \<le> 2 * x" by linarith
  also have "\<dots> < 2 * 2 powi 1023" using hi by simp
  also have "\<dots> = 2 powi 1024" by simp
  finally have fin: "\<not> 2 powi 1024 \<le> y" by simp
  have "toDouble x = Num y"
    using pos fin by (simp add: toDouble_def Let_def e_def ulp_def y_def)
  with err show ?thesis by blast
qed

subsection \<open>The percentage\<close>

text \<open>
  The quotient and the product are rounded once each; the result is within
  \<open>201 / 2 ^ 53\<close> of the exact percentage.
\<close>

lemma percent_error:
  fixes c t :: nat
  assumes c: "0 < c" and ct: "c \<le> t" and t: "t < 2 ^ 32"
  shows "\<exists>y. js_times (js_div (of_nat c) (of_nat t)) 100 = Num y
           \<and> \<bar>y - of_nat c / of_nat t * 100\<bar> \<le> 201 / 2 ^ 53"
proof -
  define q :: rat where "q = of_nat c / of_nat t"
  have tpos: "0 < t" using c ct by simp
  have q1: "q \<le> 1" using ct tpos by (simp add: q_def)
  have "(of_nat t :: rat) \<le> 2 ^ 32"
    using t by (metis less_imp_le of_nat_le_iff of_nat_numeral of_nat_power)
  then have "1 / 2 ^ 32 \<le> 1 / (of_nat t :: rat)"
    using tpos by (simp add: frac_le)
  also have "\<dots> \<le> q"
    using c tpos by (simp add: q_def divide_right_mono)
  finally have qlo: "1 / 2 ^ 32 \<le> q" .
  have "(2 :: rat) powi (- 1022) \<le> 2 powi (- 32)"
    by (rule power_int_increasing) simp_all
  also have "\<dots> = 1 / 2 ^ 32" by (simp add: power_int_minus_divide)
  finally have small: "(2 :: rat) powi (- 1022) \<le> 1 / 2 ^ 32" .
  have big: "(128 :: rat) \<le> 2 powi 1023"
    using power_int_increasing [of 7 1023 "2 :: rat"] by simp
  have "2 powi (- 1022) \<le> q" using small qlo by linarith
  moreover have "q < 2 powi 1023" using q1 big by linarith
  ultimately obtain y1 where y1: "toDouble q = Num y1" and e1: "\<bar>y1 - q\<bar> \<le> q / 2 ^ 53"
    using toDouble_error by blast
  have qpos: "0 < q" using qlo by (simp add: less_le_trans [OF _ qlo])
  have step: "q / 2 ^ 53 \<le> q / 2" using qpos by (simp add: frac_le)
  have y1lo: "q / 2 \<le> y1" and y1hi: "y1 \<le> q + q / 2 ^ 53"
    using e1 step by linarith+
  define z :: rat where "z = y1 * 100"
  have "2 powi (- 1022) \<le> z" using small qlo y1lo by (simp add: z_def)
  moreover have "z < 2 powi 1023" using y1hi q1 step big by (simp add: z_def)
  ultimately obtain y where y: "toDouble z = Num y" and e2: "\<bar>y - z\<bar> \<le> z / 2 ^ 53"
    using toDouble_error by blast
  have tne: "(of_nat t :: rat) \<noteq> 0" using tpos by simp
  have res: "js_times (js_div (of_nat c) (of_nat t)) 100 = Num y"
    using tne y1 y by (simp add: js_div_def q_def z_def)
  have z_le: "z \<le> 101" using y1hi q1 step by (simp add: z_def)
  have "\<bar>z - q * 100\<bar> = \<bar>y1 - q\<bar> * 100" by (simp add: z_def abs_if algebra_simps)
  also have "\<dots> \<le> q / 2 ^ 53 * 100" using e1 by simp
  also have "\<dots> \<le> 100 / 2 ^ 53" using q1 by (simp add: divide_right_mono)
  finally have e3: "\<bar>z - q * 100\<bar> \<le> 100 / 2 ^ 53" .
  have "z / 2 ^ 53 \<le> 101 / 2 ^ 53" using z_le by (simp add: divide_right_mono)
  with e2 e3 have "\<bar>y - q * 100\<bar> \<le> 201 / 2 ^ 53" by linarith
  with res show ?thesis by (auto simp: q_def)
qed

text \<open>
  An error that small cannot carry \<open>Math.round\<close> past a nearest integer: the exact
  percentage is a multiple of \<open>1 / total\<close>, so it is either at a tie or at least
  \<open>1 / (2 * total)\<close> away from one.
\<close>

lemma round_percent:
  fixes c t :: nat and y :: rat
  assumes e: "\<bar>y - of_nat c / of_nat t * 100\<bar> \<le> 201 / 2 ^ 53"
    and tpos: "0 < t" and t: "t < 2 ^ 32"
  shows "\<bar>of_int \<lfloor>y + 1 / 2\<rfloor> - of_nat c / of_nat t * 100\<bar> \<le> (1 / 2 :: rat)"
proof -
  define n where "n = \<lfloor>y + 1 / 2\<rfloor>"
  define x :: rat where "x = of_nat c / of_nat t * 100"
  define k :: int where "k = 2 * int t * n - 200 * int c"
  have T: "(0 :: rat) < of_nat t" using tpos by simp
  have tb: "(of_nat t :: rat) \<le> 2 ^ 32"
    using t by (metis less_imp_le of_nat_le_iff of_nat_numeral of_nat_power)
  have "of_int n \<le> y + 1 / 2" "y + 1 / 2 < of_int n + 1"
    unfolding n_def by linarith+
  with e have d: "\<bar>of_int n - x\<bar> \<le> 1 / 2 + 201 / 2 ^ 53"
    unfolding x_def by linarith
  have kx: "(of_int k :: rat) = 2 * of_nat t * (of_int n - x)"
    using T by (simp add: k_def x_def algebra_simps)
  have "\<bar>of_int k :: rat\<bar> = 2 * of_nat t * \<bar>of_int n - x\<bar>"
    using T by (simp add: kx abs_mult)
  also have "\<dots> \<le> 2 * of_nat t * (1 / 2 + 201 / 2 ^ 53)"
    using T d by (simp add: mult_left_mono)
  also have "\<dots> = of_nat t + of_nat t * (402 / 2 ^ 53)" by (simp add: algebra_simps)
  also have "\<dots> \<le> of_nat t + 2 ^ 32 * (402 / 2 ^ 53)"
    using tb by (simp add: mult_right_mono)
  also have "\<dots> < of_nat t + 1" by simp
  finally have "(of_int \<bar>k\<bar> :: rat) < of_int (int t + 1)" by simp
  then have "\<bar>k\<bar> < int t + 1" by (simp only: of_int_less_iff)
  then have "\<bar>k\<bar> \<le> int t" by simp
  then have "(of_int \<bar>k\<bar> :: rat) \<le> of_int (int t)" by (simp only: of_int_le_iff)
  then have "\<bar>of_int k :: rat\<bar> \<le> of_nat t" by simp
  then have "2 * of_nat t * \<bar>of_int n - x\<bar> \<le> (of_nat t :: rat)"
    using T by (simp add: kx abs_mult)
  then have "\<bar>of_int n - x\<bar> \<le> 1 / 2"
    using T by (simp add: field_simps)
  then show ?thesis by (simp add: n_def x_def)
qed

lemma percentOf_nearest:
  assumes tpos: "0 < total st" and ct: "completed' st \<le> total st" and t: "total st < 2 ^ 32"
  shows "\<exists>n::int. percentOf st = Num (of_int n)
           \<and> \<bar>of_int n - of_nat (completed' st) / of_nat (total st) * 100\<bar> \<le> (1 / 2 :: rat)"
proof (cases "completed' st = 0")
  case True
  have "percentOf st = Num (of_int 0)"
    using tpos by (simp add: percentOf_def js_div_def toDouble_def True floor_eq_iff)
  then show ?thesis using True by (intro exI [of _ 0]) simp
next
  case False
  then have c: "0 < completed' st" by simp
  from percent_error [OF c ct t] obtain y
    where y: "js_times (js_div (of_nat (completed' st)) (of_nat (total st))) 100 = Num y"
      and e: "\<bar>y - of_nat (completed' st) / of_nat (total st) * 100\<bar> \<le> 201 / 2 ^ 53"
    by blast
  have "percentOf st = Num (of_int \<lfloor>y + 1 / 2\<rfloor>)"
    by (simp add: percentOf_def y)
  with round_percent [OF e tpos t] show ?thesis by blast
qed

text \<open>Without the guard the expression is \<open>NaN\<close> on an empty collection.\<close>

lemma percentOf_zero_NaN: "total st = 0 \<Longrightarrow> completed' st = 0 \<Longrightarrow> percentOf st = NaN"
  by (simp add: percentOf_def js_div_def)

text \<open>
  At a tie the rounding errors decide.  With 23 of 40 tasks completed the exact
  percentage is \<open>57.5\<close>; the quotient is rounded down to a double below \<open>0.575\<close>, the
  product to a double below \<open>57.5\<close>, and \<open>Math.round\<close> gives \<open>57\<close>.
\<close>

lemma toDouble_23_40: "toDouble (23 / 40) = Num (2589569785738035 / 4503599627370496)"
proof -
  have m: "23 / 40 / 2 powi (- 1 - 52) = (25895697857380352 / 5 :: rat)"
    by (simp add: power_int_minus_divide)
  have f: "\<lfloor>25895697857380352 / 5 :: rat\<rfloor> = 5179139571476070"
    by (simp add: floor_eq_iff)
  have r: "roundHalfEven (25895697857380352 / 5) = 5179139571476070"
    by (simp add: roundHalfEven_def Let_def f)
  have "toDouble (23 / 40)
      = Num (of_int (roundHalfEven (23 / 40 / 2 powi (- 1 - 52))) * 2 powi (- 1 - 52))"
    by (rule toDouble_normal) (simp_all add: power_int_minus_divide)
  then show ?thesis by (simp add: m r)
qed

lemma toDouble_times_100:
  "toDouble (64739244643450875 / 1125899906842624) = Num (8092405580431359 / 140737488355328)"
proof -
  have m: "64739244643450875 / 1125899906842624 / 2 powi (5 - 52)
      = (64739244643450875 / 8 :: rat)"
    by (simp add: power_int_minus_divide)
  have f: "\<lfloor>64739244643450875 / 8 :: rat\<rfloor> = 8092405580431359"
    by (simp add: floor_eq_iff)
  have r: "roundHalfEven (64739244643450875 / 8) = 8092405580431359"
    by (simp add: roundHalfEven_def Let_def f)
  have "toDouble (64739244643450875 / 1125899906842624)
      = Num (of_int (roundHalfEven (64739244643450875 / 1125899906842624 / 2 powi (5 - 52)))
             * 2 powi (5 - 52))"
    by (rule toDouble_normal) (simp_all add: power_int_minus_divide)
  then show ?thesis by (simp add: m r)
qed

lemma progressPercent_23_of_40:
  "progressPercent (demoState (replicate 23 (demoTodo 1 True Low) @ replicate 17 (demoTodo 2 False Low)) [])
     = Num 57"
proof -
  have "stats (demoState (replicate 23 (demoTodo 1 True Low) @ replicate 17 (demoTodo 2 False Low)) [])
      = \<lparr> total = 40, active = 17, completed' = 23, highPriority = 0 \<rparr>"
    by (simp add: stats_def demoState_def demoTodo_def)
  then show ?thesis
    by (simp add: progressPercent_def percentOf_def js_div_def toDouble_23_40
        toDouble_times_100 floor_eq_iff)
qed

text \<open>
  Claim C9.  For a task collection (an array, so of fewer than \<open>2 ^ 32\<close> tasks) with at
  least one task, \<open>progressPercent\<close> is an integer at distance at most one half from
  \<open>completed / total * 100\<close>, where \<open>completed\<close> is the number of completed tasks and
  \<open>total\<close> the number of tasks: it is a nearest integer.  With no task it is \<open>0\<close>.  It is
  never \<open>NaN\<close>.  It is \<open>50\<close> for one completed task out of two.
\<close>

theorem progressPercent_nearest:
  "length (todos s) < 2 ^ 32 \<Longrightarrow>
   (todos s \<noteq> [] \<longrightarrow>
      (\<exists>n::int. progressPercent s = Num (of_int n)
         \<and> \<bar>of_int n - of_nat (length (filter completed (todos s)))
                        / of_nat (length (todos s)) * 100\<bar>
             \<le> (1 / 2 :: rat)))
   \<and> (todos s = [] \<longrightarrow> progressPercent s = Num 0)
   \<and> progressPercent s \<noteq> NaN
   \<and> (length (todos s) = 2 \<and> length (filter completed (todos s)) = 1
        \<longrightarrow> progressPercent s = Num 50)"
proof -
  assume t: "length (todos s) < 2 ^ 32"
  let ?c = "length (filter completed (todos s))"
  let ?t = "length (todos s)"
  have tot: "total (stats s) = ?t" and com: "completed' (stats s) = ?c"
    by (simp_all add: stats_def)
  have zero: "progressPercent s = Num 0" if "todos s = []"
    using that by (simp add: progressPercent_def stats_def)
  have pos: "\<exists>n::int. progressPercent s = Num (of_int n)
      \<and> \<bar>of_int n - of_nat ?c / of_nat ?t * 100\<bar> \<le> (1 / 2 :: rat)" if "todos s \<noteq> []"
  proof -
    have "0 < total (stats s)" using that by (simp add: tot)
    moreover have "completed' (stats s) \<le> total (stats s)" by (simp add: tot com)
    moreover have "total (stats s) < 2 ^ 32" using t by (simp add: tot)
    ultimately have "\<exists>n::int. percentOf (stats s) = Num (of_int n)
        \<and> \<bar>of_int n - of_nat (completed' (stats s)) / of_nat (total (stats s)) * 100\<bar>
            \<le> (1 / 2 :: rat)"
      by (rule percentOf_nearest)
    then show ?thesis using that by (simp add: progressPercent_def tot com)
  qed
  have nan: "progressPercent s \<noteq> NaN"
    using pos zero by (cases "todos s = []") auto
  have half: "progressPercent s = Num 50" if "?t = 2" "?c = 1"
  proof -
    from that have "todos s \<noteq> []" by auto
    from pos [OF this] that obtain n :: int
      where n: "progressPercent s = Num (of_int n)"
        and d: "\<bar>of_int n - (50 :: rat)\<bar> \<le> 1 / 2"
      by auto
    have "2 * (of_int n :: rat) \<le> 101" "99 \<le> 2 * (of_int n :: rat)"
      using d by linarith+
    then have "(of_int (2 * n) :: rat) \<le> of_int 101" "(of_int 99 :: rat) \<le> of_int (2 * n)"
      by simp_all
    then have "2 * n \<le> 101" "99 \<le> 2 * n" by (simp_all only: of_int_le_iff)
    then have "n = 50" by simp
    with n show ?thesis by simp
  qed
  show ?thesis using pos zero nan half by blast
qed

theorem progressPercent_nearest_witness:
  "length (todos (demoState [demoTodo 1 True Low, demoTodo 2 False High] [])) < 2 ^ 32
   \<and> length (todos (demoState [demoTodo 1 True Low, demoTodo 2 False High] [])) = 2
   \<and> length (filter completed (todos (demoState [demoTodo 1 True Low, demoTodo 2 False High] []))) = 1
   \<and> progressPercent (demoState [demoTodo 1 True Low, demoTodo 2 False High] []) = Num 50
   \<and> length (todos (demoState [] [])) < 2 ^ 32
   \<and> todos (demoState [] []) = []
   \<and> progressPercent (demoState [] []) = Num 0"
proof -
  have h1: "length (todos (demoState [demoTodo 1 True Low, demoTodo 2 False High] [])) < 2 ^ 32"
    and h2: "length (todos (demoState [demoTodo 1 True Low, demoTodo 2 False High] [])) = 2"
    and h3: "length (filter completed
               (todos (demoState [demoTodo 1 True Low, demoTodo 2 False High] []))) = 1"
    by (simp_all add: demoState_def demoTodo_def)
  have h4: "length (todos (demoState [] [])) < 2 ^ 32" and h5: "todos (demoState [] []) = []"
    by (simp_all add: demoState_def)
  from h2 h3 progressPercent_nearest [OF h1]
  have c1: "progressPercent (demoState [demoTodo 1 True Low, demoTodo 2 False High] []) = Num 50"
    by blast
  from h5 progressPercent_nearest [OF h4]
  have c2: "progressPercent (demoState [] []) = Num 0"
    by blast
  from h1 h2 h3 h4 h5 c1 c2 show ?thesis by blast
qed

section \<open>Sorting by due date\<close>






lemma Date_parse_samples:
  "Date_parse ''2024-01-01'' = Num 1704067200000"
  "Date_parse ''2024-06-01'' = Num 1717200000000"
  "Date_parse ''2024-01-02'' = Num 1704153600000"
  by code_simp+

lemma includes_empty: "includes' s []"
  unfolding includes'_def list_ex_iff by (rule bexI [of _ 0]) simp_all

subsection \<open>The sort of a short array\<close>








subsection \<open>The comparator of the sort key dueDate\<close>





lemma filteredTodos_sortedByDue:
  "filteredTodos getTime lc (sortedByDue ts) = Array_sort (compareTodos getTime lc SortDueDate) ts"
  by (simp add: filteredTodos_def sortedByDue_def demoState_def toLowerCase_def includes_empty)

lemma filteredTodos_all:
  "filter_st s = FilterAll \<Longrightarrow> categoryFilter s = None \<Longrightarrow> searchQuery s = [] \<Longrightarrow>
   filteredTodos getTime lc s = Array_sort (compareTodos getTime lc (sortBy s)) (todos s)"
  by (simp add: filteredTodos_def toLowerCase_def includes_empty)


text \<open>
  Tasks without a due date keep the order they had: the comparator's \<open>1\<close> for two of
  them is not negative, and the insertion puts an element behind those it does not
  compare less than.
\<close>

lemma filteredTodos_missing_dates_sample:
  "map_option (map id') (filteredTodos Date_parse lc (sortedByDue
      [dueTodo 1 None, dueTodo 3 (Some ''2024-06-01''), dueTodo 4 None,
       dueTodo 2 (Some ''2024-01-01'')]))
     = Some [2, 3, 1, 4]"
  by (simp add: filteredTodos_sortedByDue Array_sort_def BinaryInsertionSort_def
      insertPivot_def binarySearch.simps compareTodos_def dueTodo_def Date_parse_samples)




section \<open>Overdue tasks\<close>

lemma Date_parse_midnight:
  "Date_parse s = Num t \<Longrightarrow> \<exists>D. t = D * msPerDay"
  by (auto simp: Date_parse_def Let_def split: list.splits if_splits)

lemma localDay_midnight:
  assumes "0 \<le> localTZA (D * msPerDay)" "localTZA (D * msPerDay) < msPerDay"
  shows "localDay localTZA (D * msPerDay) = D"
proof -
  have "(D * msPerDay + localTZA (D * msPerDay)) div msPerDay
      = D + localTZA (D * msPerDay) div msPerDay"
    by (simp add: msPerDay_def)
  also have "localTZA (D * msPerDay) div msPerDay = 0"
    using assms by (simp add: div_pos_pos_trivial)
  finally show ?thesis by (simp add: localDay_def)
qed

lemma less_div_iff_int:
  fixes m :: int
  assumes m: "0 < m"
  shows "D < n div m \<longleftrightarrow> (D + 1) * m \<le> n"
proof -
  have "n div m = \<lfloor>real_of_int n / real_of_int m\<rfloor>"
    by (simp add: floor_divide_of_int_eq)
  then have "D < n div m \<longleftrightarrow> of_int D + 1 \<le> real_of_int n / real_of_int m"
    by (simp add: less_floor_iff)
  also have "\<dots> \<longleftrightarrow> (of_int D + 1) * real_of_int m \<le> real_of_int n"
    using m by (simp add: pos_le_divide_eq)
  also have "\<dots> \<longleftrightarrow> (D + 1) * m \<le> n"
    by (metis of_int_1 of_int_add of_int_le_iff of_int_mult)
  finally show ?thesis .
qed

text \<open>
  Where local time is UTC or ahead of it (an offset from \<open>0\<close> up to, not including, one
  day), \<open>isOverdue\<close> is the comparison of calendar days: a task due on the day \<open>D\<close> is
  overdue exactly when \<open>D\<close> is before the local day of the current moment.
\<close>

lemma isOverdue_east_of_UTC:
  assumes d: "getTime d = Num (D * msPerDay)" "d \<noteq> []"
    and tz: "\<And>t. 0 \<le> localTZA t \<and> localTZA t < msPerDay"
  shows "isOverdue getTime localTZA now (Some d) \<longleftrightarrow> D < localDay localTZA now"
proof -
  have day: "localDay localTZA (D * msPerDay) = D"
    using tz [of "D * msPerDay"] by (simp add: localDay_midnight)
  have pos: "0 < msPerDay" by (simp add: msPerDay_def)
  define n where "n = now + localTZA now"
  have off: "now \<le> n" "n < now + msPerDay"
    using tz [of now] by (simp_all add: n_def)
  have L: "localDay localTZA now = n div msPerDay"
    by (simp add: localDay_def n_def)
  have lt: "D < n div msPerDay \<longleftrightarrow> (D + 1) * msPerDay \<le> n"
    using pos by (rule less_div_iff_int)
  have le: "D - 1 < n div msPerDay \<longleftrightarrow> D * msPerDay \<le> n"
    using less_div_iff_int [OF pos, of "D - 1" n] by simp
  have unfold: "isOverdue getTime localTZA now (Some d)
      \<longleftrightarrow> D * msPerDay < now \<and> D \<noteq> n div msPerDay"
    using d by (simp add: isOverdue_def day L)
  show ?thesis
  proof
    assume "isOverdue getTime localTZA now (Some d)"
    with unfold have a: "D * msPerDay < now" and b: "D \<noteq> n div msPerDay" by simp_all
    from a off(1) have "D * msPerDay \<le> n" by simp
    with le have "D - 1 < n div msPerDay" by simp
    with b show "D < localDay localTZA now" by (simp add: L)
  next
    assume "D < localDay localTZA now"
    then have c: "D < n div msPerDay" by (simp add: L)
    with lt have "(D + 1) * msPerDay \<le> n" by simp
    with off(2) have "D * msPerDay < now" by (simp add: algebra_simps)
    with c unfold show "isOverdue getTime localTZA now (Some d)" by simp
  qed
qed

text \<open>
  Claim C5 at a moment in a time zone behind UTC.  The local clock is five hours behind
  UTC and shows 10:00 on 2024-01-02 (15:00 UTC).  The task is due on 2024-01-02, the
  current local day, and \<open>isOverdue\<close> is true: the due date stands for midnight UTC,
  which is 19:00 of the local day before.
\<close>

theorem isOverdue_due_today_behind_UTC:
  "Date_parse ''2024-01-02'' = Num (19724 * msPerDay)
   \<and> localDay (\<lambda>t. - 18000000) 1704207600000 = 19724
   \<and> toDateString (\<lambda>t. - 18000000) (Date_parse ''2024-01-02'') = LocalDay 19723
   \<and> isOverdue Date_parse (\<lambda>t. - 18000000) 1704207600000 (Some ''2024-01-02'')"
  by (simp add: isOverdue_def Date_parse_samples localDay_def msPerDay_def)

section \<open>Reading back what JSON.stringify writes\<close>

subsection \<open>Strings\<close>

lemma char_eqI: "(of_char c :: nat) = of_char d \<Longrightarrow> c = d"
  by simp

lemma hexVal_hexDigit: "d < 16 \<Longrightarrow> hexVal (hexDigit d) = Some d"
  by (auto simp: hexVal_def hexDigit_def Let_def)

lemma hexVal_zero: "hexVal CHR ''0'' = Some 0"
  by (simp add: hexVal_def)

lemma parseChars_escapeChar:
  "parseChars (escapeChar c @ X) = consChar c (parseChars X)"
proof -
  define n where "n = (of_char c :: nat)"
  have c: "c = char_of n" by (simp add: n_def)
  have n256: "n < 256" by (simp add: n_def)
  consider (quote) "c = CHR 0x22" | (backslash) "c = CHR 0x5C"
    | (short) "n \<in> {8, 9, 10, 12, 13}"
    | (control) "n < 32" "n \<notin> {8, 9, 10, 12, 13}"
    | (plain) "32 \<le> n" "c \<noteq> CHR 0x22" "c \<noteq> CHR 0x5C"
    by fastforce
  then show ?thesis
  proof cases
    case quote
    then show ?thesis by (simp add: escapeChar_def unescape_def)
  next
    case backslash
    then show ?thesis by (simp add: escapeChar_def unescape_def)
  next
    case short
    have "c = CHR 0x08" if "n = 8"
      by (rule char_eqI) (use that in \<open>simp add: n_def\<close>)
    moreover have "c = CHR 0x09" if "n = 9"
      by (rule char_eqI) (use that in \<open>simp add: n_def\<close>)
    moreover have "c = CHR 0x0A" if "n = 10"
      by (rule char_eqI) (use that in \<open>simp add: n_def\<close>)
    moreover have "c = CHR 0x0C" if "n = 12"
      by (rule char_eqI) (use that in \<open>simp add: n_def\<close>)
    moreover have "c = CHR 0x0D" if "n = 13"
      by (rule char_eqI) (use that in \<open>simp add: n_def\<close>)
    ultimately consider "c = CHR 0x08" | "c = CHR 0x09" | "c = CHR 0x0A" | "c = CHR 0x0C"
      | "c = CHR 0x0D"
      using short by blast
    then show ?thesis
      by cases (simp_all add: escapeChar_def unescape_def)
  next
    case control
    have q: "c \<noteq> CHR 0x22" "c \<noteq> CHR 0x5C"
      using control(1) by (auto simp: n_def)
    have e: "escapeChar c
        = [CHR 0x5C, CHR ''u'', CHR ''0'', CHR ''0'', hexDigit (n div 16), hexDigit (n mod 16)]"
      using control q by (auto simp: escapeChar_def Let_def n_def)
    have h1: "hexVal (hexDigit (n div 16)) = Some (n div 16)"
      using control(1) by (intro hexVal_hexDigit) simp
    have h2: "hexVal (hexDigit (n mod 16)) = Some (n mod 16)"
      by (intro hexVal_hexDigit) simp
    have cn: "char_of n = c" by (simp add: n_def)
    show ?thesis
      using n256 by (simp add: e hexVal_zero h1 h2 cn)
  next
    case plain
    then show ?thesis by (simp add: escapeChar_def Let_def n_def)
  qed
qed

lemma parseChars_escaped:
  "parseChars (concat (map escapeChar s) @ CHR 0x22 # rest) = Inr (s, rest)"
  by (induction s) (simp_all add: parseChars_escapeChar consChar_def)

lemma parseChars_quoteJSON:
  "parseChars (tl (quoteJSON s) @ rest) = Inr (s, rest)"
  by (simp add: quoteJSON_def parseChars_escaped)

subsection \<open>Numbers\<close>

lemma isDigit_digitChar: "d < 10 \<Longrightarrow> isDigit (digitChar d)"
  by (simp add: isDigit_def digitChar_def)

lemma digitVal_digitChar: "d < 10 \<Longrightarrow> digitVal (digitChar d) = int d"
  by (simp add: digitVal_def digitChar_def)

lemma showNat_digits: "list_all isDigit (showNat n)"
proof (induction n rule: showNat.induct)
  case (1 n)
  then show ?case
    by (subst showNat.simps) (simp add: isDigit_digitChar)
qed

lemma showNat_nonempty: "showNat n \<noteq> []"
  by (subst showNat.simps) simp

lemma digitsVal_snoc: "digitsVal (ds @ [c]) = 10 * digitsVal ds + digitVal c"
  by (simp add: digitsVal_def)

lemma digitsVal_showNat: "digitsVal (showNat n) = int n"
proof (induction n rule: showNat.induct)
  case (1 n)
  show ?case
  proof (cases "n < 10")
    case True
    then show ?thesis
      by (subst showNat.simps) (simp add: digitsVal_def digitVal_digitChar)
  next
    case False
    with 1 have IH: "digitsVal (showNat (n div 10)) = int (n div 10)" by simp
    have "10 * int (n div 10) + int (n mod 10) = int (10 * (n div 10) + n mod 10)"
      by (simp only: of_nat_add of_nat_mult of_nat_numeral)
    also have "10 * (n div 10) + n mod 10 = n" by simp
    finally have split: "10 * int (n div 10) + int (n mod 10) = int n" .
    from False IH split show ?thesis
      by (subst showNat.simps) (simp add: digitsVal_snoc digitVal_digitChar)
  qed
qed

lemma hd_showNat_zero: "hd (showNat n) = CHR ''0'' \<Longrightarrow> length (showNat n) = 1"
proof (induction n rule: showNat.induct)
  case (1 n)
  show ?case
  proof (cases "n < 10")
    case True
    then show ?thesis by (subst showNat.simps) simp
  next
    case False
    then have pos: "0 < n div 10" by simp
    from False "1.prems" have "hd (showNat (n div 10)) = CHR ''0''"
      by (subst (asm) showNat.simps) (simp add: showNat_nonempty)
    with "1.IH" False have len: "length (showNat (n div 10)) = 1" by simp
    then obtain c where sc: "showNat (n div 10) = [c]"
      by (cases "showNat (n div 10)") auto
    with \<open>hd (showNat (n div 10)) = CHR ''0''\<close> have "showNat (n div 10) = ''0''" by simp
    then have "digitsVal (showNat (n div 10)) = 0" by (simp add: digitsVal_def digitVal_def)
    with digitsVal_showNat [of "n div 10"] pos show ?thesis by simp
  qed
qed

lemma endsValue_not_digit:
  "endsValue rest \<Longrightarrow> rest = [] \<or> (\<not> isDigit (hd rest) \<and> hd rest \<noteq> CHR ''.''
     \<and> hd rest \<noteq> CHR ''e'' \<and> hd rest \<noteq> CHR ''E'')"
  by (auto simp: endsValue_def isDigit_def split: list.splits)

lemma takeWhile_digits:
  "list_all isDigit ds \<Longrightarrow> rest = [] \<or> \<not> isDigit (hd rest) \<Longrightarrow>
   takeWhile isDigit (ds @ rest) = ds \<and> dropWhile isDigit (ds @ rest) = rest"
  by (induction ds) (cases rest; auto)+

lemma not_digit_minus: "\<not> isDigit CHR ''-''"
  by (simp add: isDigit_def)

lemma hd_showNat_not_minus: "hd (showNat n) \<noteq> CHR ''-''"
  using showNat_digits [of n] showNat_nonempty [of n] not_digit_minus
  by (cases "showNat n") auto

lemma parseNumber_showInt:
  assumes safe: "\<bar>n\<bar> \<le> maxSafeInteger" and rest: "endsValue rest"
  shows "parseNumber (showInt n @ rest) = Inr (n, rest)"
proof -
  define m where "m = nat \<bar>n\<bar>"
  define ds where "ds = showNat m"
  from endsValue_not_digit [OF rest]
  have r: "rest = [] \<or> \<not> isDigit (hd rest)"
    and nodot: "\<not> (rest \<noteq> [] \<and> hd rest = CHR ''.'')"
    and noexp: "\<not> (rest \<noteq> [] \<and> (hd rest = CHR ''e'' \<or> hd rest = CHR ''E''))"
    by auto
  have tw: "takeWhile isDigit (ds @ rest) = ds" and dw: "dropWhile isDigit (ds @ rest) = rest"
    using takeWhile_digits [OF showNat_digits r, of m] by (simp_all add: ds_def)
  have ne: "ds \<noteq> []" by (simp add: ds_def showNat_nonempty)
  have lead: "\<not> (hd ds = CHR ''0'' \<and> 1 < length ds)"
    using hd_showNat_zero [of m] by (auto simp: ds_def)
  have val: "digitsVal ds = int m" by (simp add: ds_def digitsVal_showNat)
  have bound: "int m \<le> maxSafeInteger"
    using safe by (simp add: m_def)
  show ?thesis
  proof (cases "n < 0")
    case True
    then have s: "showInt n @ rest = CHR ''-'' # ds @ rest"
      by (simp add: showInt_def ds_def m_def)
    from True have k: "- int m = n" and nz: "int m \<noteq> 0" by (simp_all add: m_def)
    show ?thesis
      unfolding parseNumber_def s
      using ne lead nodot noexp bound k nz by (simp add: Let_def tw dw val)
  next
    case False
    then have s: "showInt n @ rest = ds @ rest"
      by (simp add: showInt_def ds_def m_def)
    have nm: "hd (ds @ rest) \<noteq> CHR ''-''"
      using hd_showNat_not_minus [of m] ne by (simp add: ds_def)
    from False have k: "int m = n" by (simp add: m_def)
    show ?thesis
      unfolding parseNumber_def s
      using ne lead nodot noexp nm bound k by (simp add: Let_def tw dw val)
  qed
qed

subsection \<open>Values\<close>

lemma skipWs_cons: "\<not> isJsonWs c \<Longrightarrow> skipWs (c # r) = c # r"
  by (simp add: skipWs_def)

lemma parseValue_cons:
  "\<not> isJsonWs c \<Longrightarrow>
   parseValue st (c # r) =
     (if c = CHR ''['' then
        (case skipWs r of
           [] \<Rightarrow> Inl SyntaxError
         | c1 # r1 \<Rightarrow>
             if c1 = CHR '']'' then afterValue (VArr []) st r1
             else parseValue (InArray [] # st) (c1 # r1))
      else if c = CHR ''{'' then
        (case skipWs r of
           [] \<Rightarrow> Inl SyntaxError
         | c1 # r1 \<Rightarrow>
             if c1 = CHR ''}'' then afterValue (VObj []) st r1
             else (case parseKey (c1 # r1) of
                     Inl e \<Rightarrow> Inl e
                   | Inr (k, r2) \<Rightarrow> parseValue (InObject [] k # st) r2))
      else if c = CHR 0x22 then
        (case parseChars r of
           Inl e \<Rightarrow> Inl e
         | Inr (str, r1) \<Rightarrow> afterValue (VStr str) st r1)
      else if c = CHR ''t'' then
        (if take 3 r = ''rue'' then afterValue (VBool True) st (drop 3 r) else Inl SyntaxError)
      else if c = CHR ''f'' then
        (if take 4 r = ''alse'' then afterValue (VBool False) st (drop 4 r) else Inl SyntaxError)
      else if c = CHR ''n'' then
        (if take 3 r = ''ull'' then afterValue VNull st (drop 3 r) else Inl SyntaxError)
      else (case parseNumber (c # r) of
              Inl e \<Rightarrow> Inl e
            | Inr (n, r1) \<Rightarrow> afterValue (VNum n) st r1))"
  by (subst parseValue.simps) (simp add: skipWs_cons)

lemma afterValue_array_comma:
  "afterValue v (InArray acc # st) (CHR '','' # r) = parseValue (InArray (acc @ [v]) # st) r"
  by (subst afterValue.simps) (simp add: skipWs_cons isJsonWs_def)

lemma afterValue_array_close:
  "afterValue v (InArray acc # st) (CHR '']'' # r) = afterValue (VArr (acc @ [v])) st r"
  by (subst afterValue.simps) (simp add: skipWs_cons isJsonWs_def)

lemma afterValue_object_comma:
  "afterValue v (InObject acc k # st) (CHR '','' # r) =
     (case parseKey r of
        Inl e \<Rightarrow> Inl e
      | Inr (k', r1) \<Rightarrow> parseValue (InObject (setProperty k v acc) k' # st) r1)"
  by (subst afterValue.simps) (simp add: skipWs_cons isJsonWs_def)

lemma afterValue_object_close:
  "afterValue v (InObject acc k # st) (CHR ''}'' # r) = afterValue (VObj (setProperty k v acc)) st r"
  by (subst afterValue.simps) (simp add: skipWs_cons isJsonWs_def)

lemma afterValue_top: "afterValue v [] [] = Inr v"
  by (subst afterValue.simps) (simp add: skipWs_def)

lemma parseKey_quoteJSON:
  "\<not> indexLike k \<Longrightarrow> parseKey (quoteJSON k @ CHR '':'' # r) = Inr (k, r)"
  by (simp add: parseKey_def quoteJSON_def skipWs_cons isJsonWs_def parseChars_escaped)

lemma parseValue_object_start:
  "parseValue st (CHR ''{'' # quoteJSON k @ r) =
     (case parseKey (quoteJSON k @ r) of
        Inl e \<Rightarrow> Inl e
      | Inr (k', r2) \<Rightarrow> parseValue (InObject [] k' # st) r2)"
  by (simp add: parseValue_cons isJsonWs_def skipWs_cons quoteJSON_def)

lemma setProperty_new: "k \<notin> set (map fst kvs) \<Longrightarrow> setProperty k v kvs = kvs @ [(k, v)]"
  by (induction kvs) auto

text \<open>The first character of a written value is no white space and closes nothing.\<close>

lemma showNat_first: "\<exists>c r. showNat n = c # r \<and> isDigit c"
  using showNat_digits [of n] showNat_nonempty [of n] by (cases "showNat n") auto

lemma showInt_first: "\<exists>c r. showInt n = c # r \<and> (isDigit c \<or> c = CHR ''-'')"
  using showNat_first [of "nat n"] by (auto simp: showInt_def)

lemma number_start:
  "isDigit c \<or> c = CHR ''-'' \<Longrightarrow>
   \<not> isJsonWs c \<and> c \<noteq> CHR ''['' \<and> c \<noteq> CHR ''{'' \<and> c \<noteq> CHR 0x22 \<and> c \<noteq> CHR ''t''
   \<and> c \<noteq> CHR ''f'' \<and> c \<noteq> CHR ''n'' \<and> c \<noteq> CHR '']'' \<and> c \<noteq> CHR ''}''"
  by (auto simp: isDigit_def isJsonWs_def)

lemma stringify_first:
  "\<exists>c r. JSON_stringify v = c # r \<and> \<not> isJsonWs c \<and> c \<noteq> CHR '']'' \<and> c \<noteq> CHR ''}''"
proof (cases v)
  case (VNum n)
  with showInt_first [of n] number_start show ?thesis by auto
qed (auto simp: isJsonWs_def quoteJSON_def)

lemma parseValue_number:
  assumes "\<bar>n\<bar> \<le> maxSafeInteger" "endsValue rest"
  shows "parseValue st (showInt n @ rest) = afterValue (VNum n) st rest"
proof -
  from showInt_first [of n] obtain c r where
    s: "showInt n = c # r" and c: "isDigit c \<or> c = CHR ''-''" by blast
  from parseNumber_showInt [OF assms] have p: "parseNumber (c # r @ rest) = Inr (n, rest)"
    by (simp add: s)
  from number_start [OF c] show ?thesis
    by (simp add: s parseValue_cons p)
qed

lemma parseValue_string:
  "parseValue st (quoteJSON s @ rest) = afterValue (VStr s) st rest"
  by (simp add: quoteJSON_def parseValue_cons isJsonWs_def parseChars_escaped)

lemma endsValue_simps:
  "endsValue (CHR '','' # r)" "endsValue (CHR '']'' # r)" "endsValue (CHR ''}'' # r)" "endsValue []"
  by (simp_all add: endsValue_def)

text \<open>The elements of an array after the first, and the closing bracket.\<close>

lemma afterValue_elements:
  assumes "\<And>x st' rest'. x \<in> set vs \<Longrightarrow> endsValue rest' \<Longrightarrow>
      parseValue st' (JSON_stringify x @ rest') = afterValue (asParsed x) st' rest'"
  shows "afterValue a (InArray acc # st)
           (concat (map (\<lambda>y. CHR '','' # y) (map JSON_stringify vs)) @ CHR '']'' # rest)
         = afterValue (VArr (acc @ a # map asParsed vs)) st rest"
  using assms
proof (induction vs arbitrary: acc a)
  case Nil
  then show ?case by (simp add: afterValue_array_close)
next
  case (Cons v vs)
  let ?X = "concat (map (\<lambda>y. CHR '','' # y) (map JSON_stringify vs)) @ CHR '']'' # rest"
  have e: "endsValue ?X" by (cases vs) (simp_all add: endsValue_simps)
  have "afterValue a (InArray acc # st) (CHR '','' # JSON_stringify v @ ?X)
      = parseValue (InArray (acc @ [a]) # st) (JSON_stringify v @ ?X)"
    by (rule afterValue_array_comma)
  also have "\<dots> = afterValue (asParsed v) (InArray (acc @ [a]) # st) ?X"
    using e by (intro Cons.prems) simp
  also have "\<dots> = afterValue (VArr ((acc @ [a]) @ asParsed v # map asParsed vs)) st rest"
    by (rule Cons.IH) (simp add: Cons.prems)
  finally show ?case by simp
qed

text \<open>The members of an object after the first, and the closing brace.\<close>

lemma afterValue_members:
  assumes "\<And>k x st' rest'. (k, x) \<in> set kvs \<Longrightarrow> endsValue rest' \<Longrightarrow>
      parseValue st' (JSON_stringify x @ rest') = afterValue (asParsed x) st' rest'"
    and "distinct (map fst acc @ k # map fst kvs)"
    and "list_all (\<lambda>(k, v). \<not> indexLike k) kvs"
  shows "afterValue a (InObject acc k # st)
           (concat (map (\<lambda>y. CHR '','' # y)
              (map (\<lambda>(k, v). quoteJSON k @ '':'' @ JSON_stringify v) kvs)) @ CHR ''}'' # rest)
         = afterValue (VObj (acc @ (k, a) # map (\<lambda>(k, v). (k, asParsed v)) kvs)) st rest"
  using assms
proof (induction kvs arbitrary: acc k a)
  case Nil
  then show ?case by (simp add: afterValue_object_close setProperty_new)
next
  case (Cons kv kvs)
  obtain k' v where kv: "kv = (k', v)" by (cases kv)
  let ?X = "concat (map (\<lambda>y. CHR '','' # y)
      (map (\<lambda>(k, v). quoteJSON k @ '':'' @ JSON_stringify v) kvs)) @ CHR ''}'' # rest"
  have e: "endsValue ?X" by (cases kvs) (simp_all add: endsValue_simps)
  have new: "setProperty k a acc = acc @ [(k, a)]"
    using Cons.prems(2) by (intro setProperty_new) simp
  have d: "distinct (map fst (acc @ [(k, a)]) @ k' # map fst kvs)"
    using Cons.prems(2) by (auto simp: kv)
  have nk: "\<not> indexLike k'" and nks: "list_all (\<lambda>(k, v). \<not> indexLike k) kvs"
    using Cons.prems(3) by (simp_all add: kv)
  have "afterValue a (InObject acc k # st)
          (CHR '','' # quoteJSON k' @ CHR '':'' # JSON_stringify v @ ?X)
      = parseValue (InObject (acc @ [(k, a)]) k' # st) (JSON_stringify v @ ?X)"
    by (simp add: afterValue_object_comma parseKey_quoteJSON [OF nk] new)
  also have "\<dots> = afterValue (asParsed v) (InObject (acc @ [(k, a)]) k' # st) ?X"
    using e by (intro Cons.prems(1) [of k']) (simp_all add: kv)
  also have "\<dots> = afterValue
      (VObj ((acc @ [(k, a)]) @ (k', asParsed v) # map (\<lambda>(k, v). (k, asParsed v)) kvs)) st rest"
  proof (rule Cons.IH)
    show "parseValue st' (JSON_stringify x @ rest') = afterValue (asParsed x) st' rest'"
      if "(k0, x) \<in> set kvs" "endsValue rest'" for k0 x st' rest'
      using that by (intro Cons.prems(1) [of k0]) simp_all
    show "distinct (map fst (acc @ [(k, a)]) @ k' # map fst kvs)" by (rule d)
    show "list_all (\<lambda>(k, v). \<not> indexLike k) kvs" by (rule nks)
  qed
  finally show ?case by (simp add: kv)
qed

lemma parseValue_stringify:
  "serializable v \<Longrightarrow> endsValue rest \<Longrightarrow>
   parseValue st (JSON_stringify v @ rest) = afterValue (asParsed v) st rest"
proof (induction v arbitrary: st rest)
  case VNull
  then show ?case by (simp add: parseValue_cons isJsonWs_def)
next
  case (VBool b)
  then show ?case by (simp add: parseValue_cons isJsonWs_def)
next
  case (VNum n)
  then show ?case by (simp add: parseValue_number)
next
  case (VStr s)
  then show ?case by (simp add: parseValue_string)
next
  case (VDate t)
  then show ?case by (simp add: parseValue_string)
next
  case (VArr vs)
  show ?case
  proof (cases vs)
    case Nil
    then show ?thesis by (simp add: parseValue_cons isJsonWs_def skipWs_cons)
  next
    case (Cons v vs')
    have IH: "parseValue st' (JSON_stringify x @ rest') = afterValue (asParsed x) st' rest'"
      if "x \<in> set vs" "endsValue rest'" for x st' rest'
      using that VArr.prems(1) by (intro VArr.IH) (auto simp: list_all_iff)
    let ?X = "concat (map (\<lambda>y. CHR '','' # y) (map JSON_stringify vs')) @ CHR '']'' # rest"
    have e: "endsValue ?X" by (cases vs') (simp_all add: endsValue_simps)
    from stringify_first [of v] obtain c r where
      f: "JSON_stringify v = c # r" "\<not> isJsonWs c" "c \<noteq> CHR '']''" by blast
    have "parseValue st (JSON_stringify (VArr vs) @ rest)
        = parseValue (InArray [] # st) (JSON_stringify v @ ?X)"
      using f by (simp add: Cons parseValue_cons isJsonWs_def skipWs_cons)
    also have "\<dots> = afterValue (asParsed v) (InArray [] # st) ?X"
      using e by (intro IH) (simp add: Cons)
    also have "\<dots> = afterValue (VArr ([] @ asParsed v # map asParsed vs')) st rest"
      by (rule afterValue_elements) (simp add: IH Cons)
    finally show ?thesis by (simp add: Cons)
  qed
next
  case (VObj kvs)
  show ?case
  proof (cases kvs)
    case Nil
    then show ?thesis by (simp add: parseValue_cons isJsonWs_def skipWs_cons)
  next
    case (Cons kv kvs')
    obtain k v where kv: "kv = (k, v)" by (cases kv)
    have IH: "parseValue st' (JSON_stringify x @ rest') = afterValue (asParsed x) st' rest'"
      if "(k', x) \<in> set kvs" "endsValue rest'" for k' x st' rest'
    proof (rule VObj.IH)
      show "(k', x) \<in> set kvs" by (rule that)
      show "x \<in> Basic_BNFs.snds (k', x)" by simp
      show "serializable x" using that(1) VObj.prems(1) by (auto simp: list_all_iff)
      show "endsValue rest'" by (rule that)
    qed
    let ?X = "concat (map (\<lambda>y. CHR '','' # y)
        (map (\<lambda>(k, v). quoteJSON k @ '':'' @ JSON_stringify v) kvs')) @ CHR ''}'' # rest"
    have e: "endsValue ?X" by (cases kvs') (simp_all add: endsValue_simps)
    have d: "distinct (map fst [] @ k # map fst kvs')"
      using VObj.prems(1) by (simp add: Cons kv)
    have nk: "\<not> indexLike k" and nks: "list_all (\<lambda>(k, v). \<not> indexLike k) kvs'"
      using VObj.prems(1) by (auto simp: Cons kv list_all_iff)
    have s: "JSON_stringify (VObj kvs) @ rest
        = CHR ''{'' # quoteJSON k @ CHR '':'' # JSON_stringify v @ ?X"
      by (simp add: Cons kv)
    have "parseValue st (JSON_stringify (VObj kvs) @ rest)
        = (case parseKey (quoteJSON k @ CHR '':'' # JSON_stringify v @ ?X) of
             Inl e \<Rightarrow> Inl e
           | Inr (k', r2) \<Rightarrow> parseValue (InObject [] k' # st) r2)"
      unfolding s by (rule parseValue_object_start)
    also have "\<dots> = parseValue (InObject [] k # st) (JSON_stringify v @ ?X)"
      by (simp add: parseKey_quoteJSON [OF nk])
    also have "\<dots> = afterValue (asParsed v) (InObject [] k # st) ?X"
      using e by (intro IH [of k]) (simp_all add: Cons kv)
    also have "\<dots> = afterValue
        (VObj ([] @ (k, asParsed v) # map (\<lambda>(k, v). (k, asParsed v)) kvs')) st rest"
    proof (rule afterValue_members)
      show "parseValue st' (JSON_stringify x @ rest') = afterValue (asParsed x) st' rest'"
        if "(k0, x) \<in> set kvs'" "endsValue rest'" for k0 x st' rest'
        using that by (intro IH [of k0]) (simp_all add: Cons)
      show "distinct (map fst [] @ k # map fst kvs')" by (rule d)
      show "list_all (\<lambda>(k, v). \<not> indexLike k) kvs'" by (rule nks)
    qed
    finally show ?thesis by (simp add: Cons kv)
  qed
qed

text \<open>
  Reading back what was written: \<open>JSON.parse(JSON.stringify(v))\<close> returns, and what it
  returns is \<open>v\<close> with its dates as strings.
\<close>

lemma JSON_parse_stringify:
  "serializable v \<Longrightarrow> JSON_parse (JSON_stringify v) = Inr (asParsed v)"
  using parseValue_stringify [of v "[]" "[]"]
  by (simp add: JSON_parse_def endsValue_def afterValue_top)

section \<open>Persistence\<close>

lemma serializable_todoValue: "\<bar>id' t\<bar> \<le> maxSafeInteger \<Longrightarrow> serializable (todoValue t)"
  by (simp add: todoValue_def indexLike_def isDigit_def split: option.splits CreatedAt.splits)

lemma asParsed_todoValue: "asParsed (todoValue t) = todoValue (reloaded t)"
  by (simp add: todoValue_def reloaded_def createdText_def split: option.splits CreatedAt.splits)

lemma JSON_parse_saveTodos:
  assumes "list_all (\<lambda>t. \<bar>id' t\<bar> \<le> maxSafeInteger) ts"
  shows "JSON_parse (saveTodos ts) = Inr (VArr (map todoValue (map reloaded ts)))"
proof -
  have "serializable (VArr (map todoValue ts))"
    using assms by (simp add: list_all_iff serializable_todoValue)
  then have "JSON_parse (saveTodos ts) = Inr (asParsed (VArr (map todoValue ts)))"
    unfolding saveTodos_def by (rule JSON_parse_stringify)
  then show ?thesis by (simp add: asParsed_todoValue)
qed

lemma toISOString_sample: "toISOString 1700000000000 = ''2023-11-14T22:13:20.000Z''"
  by code_simp

lemma saveTodos_nonempty: "saveTodos ts \<noteq> []"
  by (simp add: saveTodos_def)

lemma reloaded_fixed: "createdAt t = DateString s \<Longrightarrow> reloaded t = t"
  by (simp add: reloaded_def createdText_def)

text \<open>
  Claim C3, as amended.  Writing a task collection (with ids that are safe integers) and
  reading it back returns, and gives the tasks in their order with the same id, text,
  completed flag, priority, category, due date and notes.  The field \<open>createdAt\<close> comes
  back as a string: the ISO text of the date when the task held a \<open>Date\<close>, the same
  string when it held a string already.  So a collection whose \<open>createdAt\<close> fields are
  strings comes back equal.
\<close>

theorem persisted_roundtrip:
  "list_all (\<lambda>t. \<bar>id' t\<bar> \<le> maxSafeInteger) ts \<Longrightarrow>
   JSON_parse (saveTodos ts) = Inr (VArr (map todoValue (map reloaded ts)))
   \<and> map id' (map reloaded ts) = map id' ts
   \<and> map text' (map reloaded ts) = map text' ts
   \<and> map completed (map reloaded ts) = map completed ts
   \<and> map priority (map reloaded ts) = map priority ts
   \<and> map category (map reloaded ts) = map category ts
   \<and> map dueDate (map reloaded ts) = map dueDate ts
   \<and> map notes' (map reloaded ts) = map notes' ts
   \<and> map createdAt (map reloaded ts) = map (\<lambda>t. DateString (createdText (createdAt t))) ts
   \<and> (list_all (\<lambda>t. case createdAt t of DateString s \<Rightarrow> True | DateObject x \<Rightarrow> False) ts \<longrightarrow>
        JSON_parse (saveTodos ts) = Inr (VArr (map todoValue ts)))"
proof -
  assume safe: "list_all (\<lambda>t. \<bar>id' t\<bar> \<le> maxSafeInteger) ts"
  have same: "map reloaded ts = ts"
    if "list_all (\<lambda>t. case createdAt t of DateString s \<Rightarrow> True | DateObject x \<Rightarrow> False) ts"
    using that by (induction ts) (auto simp: reloaded_fixed split: CreatedAt.splits)
  have parsed: "JSON_parse (saveTodos ts) = Inr (VArr (map todoValue (map reloaded ts)))"
    using safe by (rule JSON_parse_saveTodos)
  have fields: "map id' (map reloaded ts) = map id' ts"
    "map text' (map reloaded ts) = map text' ts"
    "map completed (map reloaded ts) = map completed ts"
    "map priority (map reloaded ts) = map priority ts"
    "map category (map reloaded ts) = map category ts"
    "map dueDate (map reloaded ts) = map dueDate ts"
    "map notes' (map reloaded ts) = map notes' ts"
    "map createdAt (map reloaded ts) = map (\<lambda>t. DateString (createdText (createdAt t))) ts"
    by (simp_all add: reloaded_def o_def)
  have exact: "JSON_parse (saveTodos ts) = Inr (VArr (map todoValue ts))"
    if "list_all (\<lambda>t. case createdAt t of DateString s \<Rightarrow> True | DateObject x \<Rightarrow> False) ts"
    using parsed same [OF that] by simp
  from parsed fields exact show ?thesis by blast
qed

text \<open>
  The claim as stated includes \<open>createdAt\<close> among the fields that come back equal.  A
  task that \<open>addTodo\<close> created holds a \<open>Date\<close> there; what comes back holds a string.
\<close>

theorem persisted_roundtrip_counterexample:
  "JSON_parse (saveTodos [demoTodo 1700000000000 False High])
     = Inr (VArr [todoValue ((demoTodo 1700000000000 False High)
                    \<lparr> createdAt := DateString ''2023-11-14T22:13:20.000Z'' \<rparr>)])
   \<and> JSON_parse (saveTodos [demoTodo 1700000000000 False High])
     \<noteq> Inr (VArr [todoValue (demoTodo 1700000000000 False High)])"
proof -
  let ?a = "demoTodo 1700000000000 False High"
  have "list_all (\<lambda>t. \<bar>id' t\<bar> \<le> maxSafeInteger) [?a]"
    by (simp add: demoTodo_def maxSafeInteger_def)
  then have "JSON_parse (saveTodos [?a]) = Inr (VArr (map todoValue (map reloaded [?a])))"
    by (rule JSON_parse_saveTodos)
  moreover have "reloaded ?a = ?a\<lparr> createdAt := DateString ''2023-11-14T22:13:20.000Z'' \<rparr>"
    by (simp add: reloaded_def createdText_def demoTodo_def toISOString_sample)
  moreover have "todoValue (?a\<lparr> createdAt := DateString ''2023-11-14T22:13:20.000Z'' \<rparr>)
      \<noteq> todoValue ?a"
    by (simp add: todoValue_def demoTodo_def)
  ultimately show ?thesis by simp
qed

theorem persisted_roundtrip_witness:
  "list_all (\<lambda>t. \<bar>id' t\<bar> \<le> maxSafeInteger)
     [demoTodo 1700000000000 False High, storedTodo 1700000000001 ''2023-11-14T22:13:20.001Z'']
   \<and> JSON_parse (saveTodos
        [demoTodo 1700000000000 False High, storedTodo 1700000000001 ''2023-11-14T22:13:20.001Z''])
     = Inr (VArr [todoValue ((demoTodo 1700000000000 False High)
                     \<lparr> createdAt := DateString ''2023-11-14T22:13:20.000Z'' \<rparr>),
                  todoValue (storedTodo 1700000000001 ''2023-11-14T22:13:20.001Z'')])
   \<and> list_all (\<lambda>t. case createdAt t of DateString s \<Rightarrow> True | DateObject x \<Rightarrow> False)
        [storedTodo 1700000000001 ''2023-11-14T22:13:20.001Z'']
   \<and> JSON_parse (saveTodos [storedTodo 1700000000001 ''2023-11-14T22:13:20.001Z''])
     = Inr (VArr [todoValue (storedTodo 1700000000001 ''2023-11-14T22:13:20.001Z'')])"
proof -
  let ?a = "demoTodo 1700000000000 False High"
  let ?b = "storedTodo 1700000000001 ''2023-11-14T22:13:20.001Z''"
  have h1: "list_all (\<lambda>t. \<bar>id' t\<bar> \<le> maxSafeInteger) [?a, ?b]"
    by (simp add: demoTodo_def storedTodo_def maxSafeInteger_def)
  have h2: "list_all (\<lambda>t. \<bar>id' t\<bar> \<le> maxSafeInteger) [?b]"
    by (simp add: storedTodo_def maxSafeInteger_def)
  have h3: "list_all (\<lambda>t. case createdAt t of DateString s \<Rightarrow> True | DateObject x \<Rightarrow> False) [?b]"
    by (simp add: storedTodo_def)
  from persisted_roundtrip [OF h1]
  have "JSON_parse (saveTodos [?a, ?b]) = Inr (VArr (map todoValue (map reloaded [?a, ?b])))"
    by blast
  moreover have "reloaded ?a = ?a\<lparr> createdAt := DateString ''2023-11-14T22:13:20.000Z'' \<rparr>"
    by (simp add: reloaded_def createdText_def demoTodo_def toISOString_sample)
  moreover have "reloaded ?b = ?b"
    by (simp add: reloaded_def createdText_def storedTodo_def)
  ultimately have c1: "JSON_parse (saveTodos [?a, ?b])
      = Inr (VArr [todoValue (?a\<lparr> createdAt := DateString ''2023-11-14T22:13:20.000Z'' \<rparr>),
                   todoValue ?b])"
    by simp
  from persisted_roundtrip [OF h2] h3
  have c2: "JSON_parse (saveTodos [?b]) = Inr (VArr (map todoValue [?b]))"
    by blast
  from h1 h3 c1 c2 show ?thesis by simp
qed

lemma JSON_parse_saved_darkMode: "JSON_parse (JSON_stringify (VBool b)) = Inr (VBool b)"
  using JSON_parse_stringify [of "VBool b"] by simp

lemma JSON_stringify_bool_nonempty: "JSON_stringify (VBool b) \<noteq> []"
  by (cases b) simp_all

text \<open>
  Claim C1, as amended.  Each of the two keys is read in the same way, the tasks first.
  A key that is absent or holds the empty string is skipped: the task list stays empty,
  the theme stays light.  A key that holds a JSON text is parsed and the state becomes
  the value of the text, whatever the value is, and whatever the other key holds; for
  the texts that the application wrote itself the task state is the collection as
  \<open>reloaded\<close> and the theme is the saved boolean.  When the text of either key is not
  JSON, the effect fails with the \<open>SyntaxError\<close> of \<open>JSON.parse\<close>: there is no fallback
  to the empty list or to the light theme.  For a text that is JSON but denotes a value
  outside the model (a number with a fraction, for one) \<open>JSON_parse\<close> answers
  \<open>NotModelled\<close>, and so does \<open>loadOnMount\<close>: the model does not say what the code
  does with it.
\<close>

theorem loadOnMount_cases:
  "((complexTodos store = None \<or> complexTodos store = Some [])
      \<and> (darkModeItem store = None \<or> darkModeItem store = Some []) \<longrightarrow>
        loadOnMount store = Inr \<lparr> startTodos = VArr [], startDarkMode = VBool False \<rparr>)
   \<and> ((complexTodos store = None \<or> complexTodos store = Some [])
      \<and> darkModeItem store = Some d \<and> d \<noteq> [] \<and> JSON_parse d = Inr dv \<longrightarrow>
        loadOnMount store = Inr \<lparr> startTodos = VArr [], startDarkMode = dv \<rparr>)
   \<and> (complexTodos store = Some s \<and> s \<noteq> [] \<and> JSON_parse s = Inr v
      \<and> (darkModeItem store = None \<or> darkModeItem store = Some []) \<longrightarrow>
        loadOnMount store = Inr \<lparr> startTodos = v, startDarkMode = VBool False \<rparr>)
   \<and> (complexTodos store = Some s \<and> s \<noteq> [] \<and> JSON_parse s = Inr v
      \<and> darkModeItem store = Some d \<and> d \<noteq> [] \<and> JSON_parse d = Inr dv \<longrightarrow>
        loadOnMount store = Inr \<lparr> startTodos = v, startDarkMode = dv \<rparr>)
   \<and> (complexTodos store = Some (saveTodos ts) \<and> list_all (\<lambda>t. \<bar>id' t\<bar> \<le> maxSafeInteger) ts
      \<and> darkModeItem store = Some (JSON_stringify (VBool b)) \<longrightarrow>
        loadOnMount store
          = Inr \<lparr> startTodos = VArr (map todoValue (map reloaded ts)), startDarkMode = VBool b \<rparr>)
   \<and> (complexTodos store = Some s \<and> s \<noteq> [] \<and> JSON_parse s = Inl e \<longrightarrow>
        loadOnMount store = Inl e)
   \<and> ((complexTodos store = None \<or> complexTodos store = Some []
        \<or> (complexTodos store = Some s \<and> JSON_parse s = Inr v))
      \<and> darkModeItem store = Some d \<and> d \<noteq> [] \<and> JSON_parse d = Inl e \<longrightarrow>
        loadOnMount store = Inl e)"
proof -
  have written: "loadOnMount store
      = Inr \<lparr> startTodos = VArr (map todoValue (map reloaded ts)), startDarkMode = VBool b \<rparr>"
    if "complexTodos store = Some (saveTodos ts)" "list_all (\<lambda>t. \<bar>id' t\<bar> \<le> maxSafeInteger) ts"
      "darkModeItem store = Some (JSON_stringify (VBool b))"
    using that JSON_parse_saveTodos [OF that(2)] saveTodos_nonempty [of ts]
      JSON_parse_saved_darkMode [of b] JSON_stringify_bool_nonempty [of b]
    by (simp add: loadOnMount_def)
  have rest: "((complexTodos store = None \<or> complexTodos store = Some [])
      \<and> (darkModeItem store = None \<or> darkModeItem store = Some []) \<longrightarrow>
        loadOnMount store = Inr \<lparr> startTodos = VArr [], startDarkMode = VBool False \<rparr>)
   \<and> ((complexTodos store = None \<or> complexTodos store = Some [])
      \<and> darkModeItem store = Some d \<and> d \<noteq> [] \<and> JSON_parse d = Inr dv \<longrightarrow>
        loadOnMount store = Inr \<lparr> startTodos = VArr [], startDarkMode = dv \<rparr>)
   \<and> (complexTodos store = Some s \<and> s \<noteq> [] \<and> JSON_parse s = Inr v
      \<and> (darkModeItem store = None \<or> darkModeItem store = Some []) \<longrightarrow>
        loadOnMount store = Inr \<lparr> startTodos = v, startDarkMode = VBool False \<rparr>)
   \<and> (complexTodos store = Some s \<and> s \<noteq> [] \<and> JSON_parse s = Inr v
      \<and> darkModeItem store = Some d \<and> d \<noteq> [] \<and> JSON_parse d = Inr dv \<longrightarrow>
        loadOnMount store = Inr \<lparr> startTodos = v, startDarkMode = dv \<rparr>)
   \<and> (complexTodos store = Some s \<and> s \<noteq> [] \<and> JSON_parse s = Inl e \<longrightarrow>
        loadOnMount store = Inl e)
   \<and> ((complexTodos store = None \<or> complexTodos store = Some []
        \<or> (complexTodos store = Some s \<and> JSON_parse s = Inr v))
      \<and> darkModeItem store = Some d \<and> d \<noteq> [] \<and> JSON_parse d = Inl e \<longrightarrow>
        loadOnMount store = Inl e)"
    by (auto simp: loadOnMount_def)
  from written rest show ?thesis by blast
qed

text \<open>
  The claim as stated has malformed data treated like absent data.  A stored value cut
  off after its first two characters makes loading fail, and so does a malformed theme
  when no tasks are stored.  A stored value that is JSON but not a task collection is
  taken as it is: the text \<open>null\<close> makes the task state \<open>null\<close>, not the empty list.
\<close>

theorem loadOnMount_cases_counterexample:
  "loadOnMount \<lparr> complexTodos = Some ''[{'', darkModeItem = None \<rparr> = Inl SyntaxError
   \<and> loadOnMount \<lparr> complexTodos = Some ''not json'', darkModeItem = None \<rparr> = Inl SyntaxError
   \<and> loadOnMount \<lparr> complexTodos = None, darkModeItem = Some ''tru'' \<rparr> = Inl SyntaxError
   \<and> loadOnMount \<lparr> complexTodos = Some ''null'', darkModeItem = None \<rparr>
       = Inr \<lparr> startTodos = VNull, startDarkMode = VBool False \<rparr>"
  by code_simp

theorem loadOnMount_cases_witness:
  "loadOnMount \<lparr> complexTodos = None, darkModeItem = None \<rparr>
     = Inr \<lparr> startTodos = VArr [], startDarkMode = VBool False \<rparr>
   \<and> JSON_parse ''true'' = Inr (VBool True)
   \<and> loadOnMount \<lparr> complexTodos = Some [], darkModeItem = Some ''true'' \<rparr>
     = Inr \<lparr> startTodos = VArr [], startDarkMode = VBool True \<rparr>
   \<and> JSON_parse ''[ ]'' = Inr (VArr [])
   \<and> loadOnMount \<lparr> complexTodos = Some ''[ ]'', darkModeItem = Some [] \<rparr>
     = Inr \<lparr> startTodos = VArr [], startDarkMode = VBool False \<rparr>
   \<and> JSON_parse ''null'' = Inr VNull
   \<and> loadOnMount \<lparr> complexTodos = Some ''null'', darkModeItem = Some ''true'' \<rparr>
     = Inr \<lparr> startTodos = VNull, startDarkMode = VBool True \<rparr>
   \<and> loadOnMount \<lparr> complexTodos = Some (saveTodos [demoTodo 1700000000000 False High]),
                   darkModeItem = Some (JSON_stringify (VBool True)) \<rparr>
     = Inr \<lparr> startTodos = VArr (map todoValue (map reloaded [demoTodo 1700000000000 False High])),
             startDarkMode = VBool True \<rparr>
   \<and> JSON_parse ''[{'' = Inl SyntaxError
   \<and> loadOnMount \<lparr> complexTodos = Some ''[{'', darkModeItem = Some ''true'' \<rparr> = Inl SyntaxError
   \<and> JSON_parse ''[1.5]'' = Inl NotModelled
   \<and> loadOnMount \<lparr> complexTodos = Some ''[1.5]'', darkModeItem = None \<rparr> = Inl NotModelled
   \<and> JSON_parse ''tru'' = Inl SyntaxError
   \<and> loadOnMount \<lparr> complexTodos = Some ''[ ]'', darkModeItem = Some ''tru'' \<rparr> = Inl SyntaxError"
proof -
  let ?absent = "\<lparr> complexTodos = None, darkModeItem = None \<rparr>"
  let ?theme = "\<lparr> complexTodos = Some [], darkModeItem = Some ''true'' \<rparr>"
  let ?empty = "\<lparr> complexTodos = Some ''[ ]'', darkModeItem = Some [] \<rparr>"
  let ?null = "\<lparr> complexTodos = Some ''null'', darkModeItem = Some ''true'' \<rparr>"
  let ?written = "\<lparr> complexTodos = Some (saveTodos [demoTodo 1700000000000 False High]),
                   darkModeItem = Some (JSON_stringify (VBool True)) \<rparr>"
  let ?cut = "\<lparr> complexTodos = Some ''[{'', darkModeItem = Some ''true'' \<rparr>"
  let ?fraction = "\<lparr> complexTodos = Some ''[1.5]'', darkModeItem = None \<rparr>"
  let ?badTheme = "\<lparr> complexTodos = Some ''[ ]'', darkModeItem = Some ''tru'' \<rparr>"
  have p1: "JSON_parse ''[ ]'' = Inr (VArr [])" by code_simp
  have p2: "JSON_parse ''[{'' = Inl SyntaxError" by code_simp
  have p3: "JSON_parse ''true'' = Inr (VBool True)" by code_simp
  have p4: "JSON_parse ''null'' = Inr VNull" by code_simp
  have p5: "JSON_parse ''[1.5]'' = Inl NotModelled" by code_simp
  have p6: "JSON_parse ''tru'' = Inl SyntaxError" by code_simp
  have safe: "list_all (\<lambda>t. \<bar>id' t\<bar> \<le> maxSafeInteger) [demoTodo 1700000000000 False High]"
    by (simp add: demoTodo_def maxSafeInteger_def)
  from loadOnMount_cases [of ?absent]
  have c1: "loadOnMount ?absent = Inr \<lparr> startTodos = VArr [], startDarkMode = VBool False \<rparr>"
    by simp
  from loadOnMount_cases [of ?theme "''true''" "VBool True"] p3
  have c2: "loadOnMount ?theme = Inr \<lparr> startTodos = VArr [], startDarkMode = VBool True \<rparr>"
    by simp
  from loadOnMount_cases [of ?empty _ _ "''[ ]''" "VArr []"] p1
  have c3: "loadOnMount ?empty = Inr \<lparr> startTodos = VArr [], startDarkMode = VBool False \<rparr>"
    by simp
  from loadOnMount_cases [of ?null "''true''" "VBool True" "''null''" VNull] p3 p4
  have c4: "loadOnMount ?null = Inr \<lparr> startTodos = VNull, startDarkMode = VBool True \<rparr>"
    by simp
  from loadOnMount_cases [of ?written _ _ _ _ "[demoTodo 1700000000000 False High]" True] safe
  have c5: "loadOnMount ?written
      = Inr \<lparr> startTodos = VArr (map todoValue (map reloaded [demoTodo 1700000000000 False High])),
              startDarkMode = VBool True \<rparr>"
    by simp
  from loadOnMount_cases [of ?cut _ _ "''[{''" _ _ _ SyntaxError] p2
  have c6: "loadOnMount ?cut = Inl SyntaxError"
    by simp
  from loadOnMount_cases [of ?fraction _ _ "''[1.5]''" _ _ _ NotModelled] p5
  have c7: "loadOnMount ?fraction = Inl NotModelled"
    by simp
  from loadOnMount_cases [of ?badTheme "''tru''" _ "''[ ]''" "VArr []" _ _ SyntaxError] p1 p6
  have c8: "loadOnMount ?badTheme = Inl SyntaxError"
    by simp
  from p1 p2 p3 p4 p5 p6 c1 c2 c3 c4 c5 c6 c7 c8 show ?thesis by simp
qed

end
